theory Spec2Isabelle
  imports Complex_Main "HOL-Library.Multiset"
begin

section \<open>Python values and dictionaries\<close>

text \<open>
  The firewall engine passes packets and packet rules around as Python dictionaries with
  string keys (\<^verbatim>\<open>Dict[str, Any]\<close>); the rule list is persisted as JSON. The values a
  field can hold are modelled by the scalars JSON knows: \<^verbatim>\<open>None\<close>, booleans, integers,
  floats and strings. A float is modelled by a rational number: a float literal of the
  source stands for the decimal fraction as it is written, and arithmetic on floats is
  exact (rounding, infinities and NaN are not modelled).
\<close>

datatype pyval = PNone | PBool bool | PInt int | PFloat rat | PStr string

text \<open>A dictionary keeps its insertion order, so it is an association list.\<close>

type_synonym dict = "(string \<times> pyval) list"

text \<open>\<^verbatim>\<open>d.get(k)\<close>: the value stored under \<open>k\<close>, and \<^verbatim>\<open>None\<close> when the key is absent.\<close>

definition get :: "dict \<Rightarrow> string \<Rightarrow> pyval" where
  "get d k = (case map_of d k of None \<Rightarrow> PNone | Some v \<Rightarrow> v)"

text \<open>\<^verbatim>\<open>d.get(k, default)\<close>.\<close>

definition get_default :: "dict \<Rightarrow> string \<Rightarrow> pyval \<Rightarrow> pyval" where
  "get_default d k dflt = (case map_of d k of None \<Rightarrow> dflt | Some v \<Rightarrow> v)"

text \<open>The number a numeric value stands for (\<^verbatim>\<open>True\<close> is 1 and \<^verbatim>\<open>False\<close> is 0 in Python).\<close>

fun num_val :: "pyval \<Rightarrow> rat option" where
  "num_val (PBool b) = Some (if b then 1 else 0)"
| "num_val (PInt i) = Some (of_int i)"
| "num_val (PFloat r) = Some r"
| "num_val PNone = None"
| "num_val (PStr s) = None"

text \<open>
  Python's \<^verbatim>\<open>==\<close> on these values: numbers compare by value across \<^verbatim>\<open>bool\<close>, \<^verbatim>\<open>int\<close> and
  \<^verbatim>\<open>float\<close>; otherwise the two values are equal when they are the same value.
\<close>

definition py_eq :: "pyval \<Rightarrow> pyval \<Rightarrow> bool" where
  "py_eq a b = (case (num_val a, num_val b) of
                  (Some x, Some y) \<Rightarrow> x = y
                | (None, None) \<Rightarrow> a = b
                | _ \<Rightarrow> False)"

text \<open>\<^verbatim>\<open>x in [y1, ..., yn]\<close> on a list: some element is equal to \<open>x\<close>.\<close>

definition py_in :: "pyval \<Rightarrow> pyval list \<Rightarrow> bool" where
  "py_in x ys = list_ex (py_eq x) ys"

text \<open>
  The exceptions of the model are instances of \<^verbatim>\<open>Exception\<close>, which is what the handlers of
  the source (\<^verbatim>\<open>except Exception\<close>) catch: a \<^verbatim>\<open>TypeError\<close> of a comparison, or any other
  one, with its message. Signals outside that class (\<^verbatim>\<open>KeyboardInterrupt\<close>,
  \<^verbatim>\<open>SystemExit\<close>) end the process and are not modelled.
\<close>

datatype exn = TypeError | Exception string

text \<open>
  \<^verbatim>\<open>a > b\<close> for a value \<open>a\<close> and a number \<open>b\<close>: numbers compare by value, anything else
  raises \<^verbatim>\<open>TypeError\<close>.
\<close>

definition py_gt :: "pyval \<Rightarrow> rat \<Rightarrow> exn + bool" where
  "py_gt a b = (case num_val a of None \<Rightarrow> Inl TypeError | Some x \<Rightarrow> Inr (x > b))"

text \<open>Decimal digits of a natural number, as \<^verbatim>\<open>str\<close> prints them.\<close>

fun digits :: "nat \<Rightarrow> string" where
  "digits n = (if n < 10 then [char_of (48 + n)]
               else digits (n div 10) @ [char_of (48 + n mod 10)])"

declare digits.simps [simp del]

text \<open>
  \<^verbatim>\<open>str(v)\<close>, as an f-string inserts it. The text Python prints for a float is computed by
  the interpreter's \<^verbatim>\<open>float.__repr__\<close>, which is taken as the parameter \<open>float_repr\<close>.
\<close>

fun py_str :: "(rat \<Rightarrow> string) \<Rightarrow> pyval \<Rightarrow> string" where
  "py_str float_repr PNone = ''None''"
| "py_str float_repr (PBool b) = (if b then ''True'' else ''False'')"
| "py_str float_repr (PInt i) = (if i < 0 then ''-'' @ digits (nat (- i)) else digits (nat i))"
| "py_str float_repr (PFloat r) = float_repr r"
| "py_str float_repr (PStr s) = s"


section \<open>Packet Rule Store (\<^verbatim>\<open>firewall_engine/rule_engine.py\<close>)\<close>

text \<open>
  The condition of the loop body of \<^verbatim>\<open>RuleEngine.match\<close>:
  \<^verbatim>\<open>
  (rule.get("src_ip") in [packet.get("src_ip"), "*"])
  and (rule.get("dst_ip") in [packet.get("dst_ip"), "*"])
  and (rule.get("protocol") in [packet.get("protocol"), "*"])
  and (rule.get("port") in [packet.get("port"), "*", None])
  \<close>
\<close>

definition rule_matches :: "dict \<Rightarrow> dict \<Rightarrow> bool" where
  "rule_matches r pkt \<longleftrightarrow>
     py_in (get r ''src_ip'') [get pkt ''src_ip'', PStr ''*'']
   \<and> py_in (get r ''dst_ip'') [get pkt ''dst_ip'', PStr ''*'']
   \<and> py_in (get r ''protocol'') [get pkt ''protocol'', PStr ''*'']
   \<and> py_in (get r ''port'') [get pkt ''port'', PStr ''*'', PNone]"

text \<open>\<^verbatim>\<open>RuleEngine.match\<close>, on the list \<^verbatim>\<open>self.rules\<close>: the first matching rule, or \<^verbatim>\<open>None\<close>.\<close>

fun match :: "dict list \<Rightarrow> dict \<Rightarrow> dict option" where
  "match [] pkt = None"
| "match (r # rs) pkt = (if rule_matches r pkt then Some r else match rs pkt)"

text \<open>
  \<^verbatim>\<open>RuleEngine.decide\<close>: \<^verbatim>\<open>rule.get("action") if rule else "deny"\<close>. The test \<^verbatim>\<open>if rule\<close> is
  Python's truth value of the result of \<^verbatim>\<open>match\<close>: \<^verbatim>\<open>None\<close> and the empty dictionary are
  both false.
\<close>

definition decide :: "dict list \<Rightarrow> dict \<Rightarrow> pyval" where
  "decide rs pkt =
     (case match rs pkt of
        None \<Rightarrow> PStr ''deny''
      | Some r \<Rightarrow> if r \<noteq> [] then get r ''action'' else PStr ''deny'')"


subsection \<open>Persistence\<close>

text \<open>
  \<^verbatim>\<open>save\<close> writes \<^verbatim>\<open>json.dump(self.rules, f, indent=2)\<close> and \<^verbatim>\<open>load\<close> reads
  \<^verbatim>\<open>json.load(f)\<close>. The persisted document is modelled as a JSON value; the two number
  constructors keep apart the tokens Python writes for an \<^verbatim>\<open>int\<close> and for a \<^verbatim>\<open>float\<close>.
\<close>

datatype json =
    JNull | JBool bool | JInt int | JFloat rat | JString string
  | JArray "json list" | JObject "(string \<times> json) list"

text \<open>What \<^verbatim>\<open>json.dump\<close> writes for a scalar, a dictionary and the rule list.\<close>

fun json_of_val :: "pyval \<Rightarrow> json" where
  "json_of_val PNone = JNull"
| "json_of_val (PBool b) = JBool b"
| "json_of_val (PInt i) = JInt i"
| "json_of_val (PFloat r) = JFloat r"
| "json_of_val (PStr s) = JString s"

definition json_of_dict :: "dict \<Rightarrow> json" where
  "json_of_dict d = JObject (map (\<lambda>(k, v). (k, json_of_val v)) d)"

definition json_dump :: "dict list \<Rightarrow> json" where
  "json_dump rs = JArray (map json_of_dict rs)"

text \<open>
  What \<^verbatim>\<open>json.load\<close> builds. The store is typed \<^verbatim>\<open>List[Dict[str, Any]]\<close> with scalar
  fields; a document of any other shape gives \<open>None\<close> here (Python would load it, and the
  store would no longer hold a list of rule records).
\<close>

fun val_of_json :: "json \<Rightarrow> pyval option" where
  "val_of_json JNull = Some PNone"
| "val_of_json (JBool b) = Some (PBool b)"
| "val_of_json (JInt i) = Some (PInt i)"
| "val_of_json (JFloat r) = Some (PFloat r)"
| "val_of_json (JString s) = Some (PStr s)"
| "val_of_json (JArray xs) = None"
| "val_of_json (JObject kvs) = None"

fun fields_of_json :: "(string \<times> json) list \<Rightarrow> dict option" where
  "fields_of_json [] = Some []"
| "fields_of_json ((k, j) # kvs) =
     (case val_of_json j of
        None \<Rightarrow> None
      | Some v \<Rightarrow> (case fields_of_json kvs of None \<Rightarrow> None | Some d \<Rightarrow> Some ((k, v) # d)))"

fun dict_of_json :: "json \<Rightarrow> dict option" where
  "dict_of_json (JObject kvs) = fields_of_json kvs"
| "dict_of_json _ = None"

fun dicts_of_json :: "json list \<Rightarrow> dict list option" where
  "dicts_of_json [] = Some []"
| "dicts_of_json (j # js) =
     (case dict_of_json j of
        None \<Rightarrow> None
      | Some d \<Rightarrow> (case dicts_of_json js of None \<Rightarrow> None | Some ds \<Rightarrow> Some (d # ds)))"

fun json_load :: "json \<Rightarrow> dict list option" where
  "json_load (JArray js) = dicts_of_json js"
| "json_load _ = None"

text \<open>The file system: the documents stored under each path.\<close>

type_synonym fs = "string \<rightharpoonup> json"

record rule_engine =
  persist_path :: string
  rules :: "dict list"

text \<open>
  \<^verbatim>\<open>RuleEngine.load\<close>: when the file exists, the rule list becomes the loaded document;
  otherwise the store is left as it is.
\<close>

definition load :: "rule_engine \<Rightarrow> fs \<Rightarrow> rule_engine option" where
  "load e files =
     (case files (persist_path e) of
        None \<Rightarrow> Some e
      | Some doc \<Rightarrow> (case json_load doc of None \<Rightarrow> None | Some rs \<Rightarrow> Some (e\<lparr>rules := rs\<rparr>)))"

text \<open>\<^verbatim>\<open>RuleEngine.save\<close>: overwrite the file with the dumped rule list.\<close>

definition save :: "rule_engine \<Rightarrow> fs \<Rightarrow> fs" where
  "save e files = files(persist_path e \<mapsto> json_dump (rules e))"

text \<open>\<^verbatim>\<open>RuleEngine.__init__\<close>: an empty rule list, then \<^verbatim>\<open>load\<close>.\<close>

definition new_rule_engine :: "string \<Rightarrow> fs \<Rightarrow> rule_engine option" where
  "new_rule_engine path files = load \<lparr>persist_path = path, rules = []\<rparr> files"

text \<open>\<^verbatim>\<open>RuleEngine.add_rule\<close>: append, then save.\<close>

definition add_rule :: "dict \<Rightarrow> rule_engine \<Rightarrow> fs \<Rightarrow> rule_engine \<times> fs" where
  "add_rule r e files = (let e' = e\<lparr>rules := rules e @ [r]\<rparr> in (e', save e' files))"

text \<open>\<^verbatim>\<open>RuleEngine.remove_rule\<close>: keep the rules whose id differs, then save.\<close>

definition remove_rule :: "string \<Rightarrow> rule_engine \<Rightarrow> fs \<Rightarrow> rule_engine \<times> fs" where
  "remove_rule rule_id e files =
     (let e' = e\<lparr>rules := filter (\<lambda>r. \<not> py_eq (get r ''id'') (PStr rule_id)) (rules e)\<rparr>
      in (e', save e' files))"


section \<open>Decision Combiner (\<^verbatim>\<open>firewall_engine/packet_filter.py\<close>)\<close>

text \<open>The dictionary \<^verbatim>\<open>{"decision": ..., "reason": ..., "packet": ...}\<close> that is returned.\<close>

record decision =
  decision :: pyval
  reason :: string
  packet :: dict

text \<open>
  \<^verbatim>\<open>PacketFilter.inspect_packet\<close>, on the rule list of its rule engine. The conjunction is
  evaluated left to right, so the confidence is compared only for a packet predicted
  malicious; the comparison raises for a confidence that is not a number. The float
  literal \<^verbatim>\<open>0.8\<close> stands for the fraction 8/10.
\<close>

definition inspect_packet :: "(rat \<Rightarrow> string) \<Rightarrow> dict list \<Rightarrow> dict \<Rightarrow> exn + decision" where
  "inspect_packet float_repr rs pkt =
     (let rule_based =
            (let d = decide rs pkt
             in \<lparr>decision = d,
                 reason = ''Rule-based decision ('' @ py_str float_repr d @ '')'',
                 packet = pkt\<rparr>)
      in if py_eq (get pkt ''ai_pred'') (PStr ''malicious'')
         then (case py_gt (get_default pkt ''ai_confidence'' (PInt 0)) (8 / 10) of
                 Inl err \<Rightarrow> Inl err
               | Inr True \<Rightarrow>
                   Inr \<lparr>decision = PStr ''block'', reason = ''AI detected malicious'',
                        packet = pkt\<rparr>
               | Inr False \<Rightarrow> Inr rule_based)
         else Inr rule_based)"


section \<open>Response Dispatcher (\<^verbatim>\<open>firewall_engine/response_automation.py\<close>)\<close>

text \<open>
  The state the dispatcher works on: the rule engine, the file system holding its
  persisted document, and the lines of the action log \<^verbatim>\<open>LOG_FILE\<close>.
\<close>

record world =
  engine :: rule_engine
  files :: fs
  action_log :: "json list"

text \<open>
  \<^verbatim>\<open>log_action\<close> appends one line \<^verbatim>\<open>{"timestamp": ..., "action": action, "data": data}\<close>.
  The timestamp is read from the system clock and is left out of the modelled line.
\<close>

definition log_action :: "string \<Rightarrow> json \<Rightarrow> world \<Rightarrow> world" where
  "log_action act data w =
     w\<lparr>action_log := action_log w @ [JObject [(''action'', JString act), (''data'', data)]]\<rparr>"

definition block_ip :: "(rat \<Rightarrow> string) \<Rightarrow> pyval \<Rightarrow> world \<Rightarrow> world" where
  "block_ip float_repr ip w =
     (let r = [(''id'', PStr (''auto_block_'' @ py_str float_repr ip)), (''src_ip'', ip),
               (''dst_ip'', PStr ''*''), (''protocol'', PStr ''*''), (''port'', PStr ''*''),
               (''action'', PStr ''deny'')];
          (e', files') = add_rule r (engine w) (files w)
      in log_action ''block_ip'' (JObject [(''ip'', json_of_val ip)])
           (w\<lparr>engine := e', files := files'\<rparr>))"

definition isolate_host :: "pyval \<Rightarrow> world \<Rightarrow> world" where
  "isolate_host host_ip w = log_action ''isolate_host'' (JObject [(''host'', json_of_val host_ip)]) w"

definition send_alert :: "string \<Rightarrow> dict \<Rightarrow> world \<Rightarrow> world" where
  "send_alert message details w =
     log_action ''alert''
       (JObject [(''message'', JString message), (''details'', json_of_dict details)]) w"

text \<open>
  \<^verbatim>\<open>respond_to_decision\<close>. A decision dictionary without a \<^verbatim>\<open>"packet"\<close> key is one whose
  \<open>packet\<close> is the empty dictionary, and one without a \<^verbatim>\<open>"decision"\<close> key has \<open>PNone\<close>.
\<close>

definition respond_to_decision :: "(rat \<Rightarrow> string) \<Rightarrow> decision \<Rightarrow> world \<Rightarrow> world" where
  "respond_to_decision float_repr d w =
     (let pkt = packet d
      in if py_eq (decision d) (PStr ''block'')
         then send_alert ''Blocked malicious packet'' pkt
                (block_ip float_repr (get pkt ''src_ip'') w)
         else if py_eq (decision d) (PStr ''allow'')
         then log_action ''allow'' (json_of_dict pkt) w
         else isolate_host (get pkt ''src_ip'') w)"


section \<open>Policy Rule Engine (\<^verbatim>\<open>zero_trust_control/access_rules.py\<close>)\<close>

text \<open>
  The class \<^verbatim>\<open>Rule\<close>. The predicate is a Python callable: applied to a context and a
  resource, it (followed by \<^verbatim>\<open>bool(...)\<close>) either gives a truth value or raises an
  \<^verbatim>\<open>Exception\<close>.
\<close>

record ('c, 'r) rule =
  name :: string
  predicate :: "'c \<Rightarrow> 'r \<Rightarrow> exn + bool"
  action :: string
  priority :: int

text \<open>\<^verbatim>\<open>Rule.applies\<close>: an exception of the predicate is logged and answered with \<^verbatim>\<open>False\<close>.\<close>

definition applies :: "('c, 'r) rule \<Rightarrow> 'c \<Rightarrow> 'r \<Rightarrow> bool" where
  "applies r c res = (case predicate r c res of Inl err \<Rightarrow> False | Inr b \<Rightarrow> b)"

text \<open>
  \<^verbatim>\<open>RuleEngine.add_rule\<close> of the policy engine, on its list \<^verbatim>\<open>self.rules\<close>: append, then
  \<^verbatim>\<open>self.rules.sort(key=lambda r: r.priority)\<close>. Python's sort is stable, and so is
  \<open>sort_key\<close>.
\<close>

definition policy_add_rule :: "('c, 'r) rule \<Rightarrow> ('c, 'r) rule list \<Rightarrow> ('c, 'r) rule list" where
  "policy_add_rule r rs = sort_key priority (rs @ [r])"

text \<open>\<^verbatim>\<open>RuleEngine.evaluate\<close>: the loop over \<^verbatim>\<open>self.rules\<close> and the default after it.\<close>

fun evaluate :: "('c, 'r) rule list \<Rightarrow> 'c \<Rightarrow> 'r \<Rightarrow> dict" where
  "evaluate [] c res = [(''action'', PStr ''deny''), (''rule'', PStr ''default-deny'')]"
| "evaluate (r # rs) c res =
     (if applies r c res then [(''action'', PStr (action r)), (''rule'', PStr (name r))]
      else evaluate rs c res)"


section \<open>Trust Assessor (\<^verbatim>\<open>zero_trust_control/identity_verification.py\<close>)\<close>

text \<open>
  The assertion dictionaries, with the keys and value types their docstrings give; a
  field is \<open>None\<close> when the key is absent. Scores are floats; they are modelled by
  rationals, each literal standing for the decimal fraction the source writes.
\<close>

record device_assertion =
  device_id :: "string option"
  os :: "string option"
  patch_level :: "string option"
  antivirus :: "string option"
  signed_by_mdm :: "bool option"
  device_presented_token :: "string option"

record user_assertion =
  user_id :: "string option"
  auth_method :: "string option"
  mfa_ok :: "bool option"
  last_auth_time :: "string option"
  user_role :: "string option"

text \<open>The verdict \<^verbatim>\<open>{"ok": ..., "score": ..., "reasons": ...}\<close>.\<close>

record trust_verdict =
  ok :: bool
  score :: rat
  reasons :: "string list"

text \<open>
  \<^verbatim>\<open>verify_device\<close>. Two library computations are parameters: \<open>age_days s\<close> is
  \<^verbatim>\<open>(time.time() - time.mktime(time.strptime(s, "%Y-%m-%d"))) / 86400.0\<close>, and \<open>None\<close>
  when that raises; \<open>sha256_hex\<close> is \<^verbatim>\<open>_hash_token\<close>.
\<close>

definition verify_device ::
  "(string \<Rightarrow> rat option) \<Rightarrow> (string \<Rightarrow> string) \<Rightarrow> device_assertion \<Rightarrow> trust_verdict" where
  "verify_device age_days sha256_hex d =
     (let (rsn, sc) = ([], 5 / 10);
          (rsn, sc) = (if signed_by_mdm d = Some True
                       then (rsn @ [''MDM signed''], sc + 3 / 10)
                       else (rsn @ [''No MDM signature''], sc - 2 / 10));
          (rsn, sc) = (if antivirus d = Some ''up_to_date''
                       then (rsn @ [''AV up-to-date''], sc + 1 / 10)
                       else (rsn @ [''AV outdated or missing''], sc - 1 / 10));
          (rsn, sc) = (case patch_level d of
                         None \<Rightarrow> (rsn, sc)
                       | Some patch \<Rightarrow>
                           if patch = [] then (rsn, sc)
                           else (case age_days patch of
                                   None \<Rightarrow> (rsn @ [''Patch date parse failed''], sc - 5 / 100)
                                 | Some age \<Rightarrow>
                                     if age < 30 then (rsn @ [''Patch recent''], sc + 1 / 10)
                                     else if age < 90
                                     then (rsn @ [''Patch moderately recent''], sc + 0)
                                     else (rsn @ [''Patch old''], sc - 15 / 100)));
          (rsn, sc) = (case device_presented_token d of
                         None \<Rightarrow> (rsn @ [''No device token presented''], sc - 1 / 10)
                       | Some token \<Rightarrow>
                           if token = [] then (rsn @ [''No device token presented''], sc - 1 / 10)
                           else if take 6 (sha256_hex token) = ''000000''
                           then (rsn @ [''Device token valid''], sc + 2 / 10)
                           else (rsn @ [''Device token present but not validated''], sc + 0));
          sc = max 0 (min 1 sc)
      in \<lparr>ok = (sc \<ge> 6 / 10), score = sc, reasons = rsn\<rparr>)"

text \<open>\<^verbatim>\<open>verify_user\<close>; \<open>age_days\<close> is applied to \<^verbatim>\<open>last[:10]\<close>.\<close>

definition verify_user :: "(string \<Rightarrow> rat option) \<Rightarrow> user_assertion \<Rightarrow> trust_verdict" where
  "verify_user age_days u =
     (let (rsn, sc) = ([], 5 / 10);
          method = (case auth_method u of None \<Rightarrow> ''password'' | Some m \<Rightarrow> m);
          (rsn, sc) = (if method = ''mfa'' \<or> mfa_ok u = Some True
                       then (rsn @ [''MFA verified''], sc + 3 / 10)
                       else if method = ''sso''
                       then (rsn @ [''SSO auth''], sc + 15 / 100)
                       else (rsn @ [''Password-only or unknown auth''], sc - 2 / 10));
          role = (case user_role u of None \<Rightarrow> ''user'' | Some r \<Rightarrow> r);
          (rsn, sc) = (if role = ''admin''
                       then (rsn @ [''Admin role -> requires stricter checks''], sc - 1 / 10)
                       else (rsn, sc));
          (rsn, sc) = (case last_auth_time u of
                         None \<Rightarrow> (rsn, sc)
                       | Some lst \<Rightarrow>
                           if lst = [] then (rsn, sc)
                           else (case age_days (take 10 lst) of
                                   None \<Rightarrow> (rsn @ [''Could not parse last_auth_time''], sc - 5 / 100)
                                 | Some age \<Rightarrow>
                                     if age < 1 then (rsn @ [''Recent authentication''], sc + 1 / 10)
                                     else if age > 30
                                     then (rsn @ [''Stale authentication''], sc - 1 / 10)
                                     else (rsn, sc)));
          sc = max 0 (min 1 sc)
      in \<lparr>ok = (sc \<ge> 6 / 10), score = sc, reasons = rsn\<rparr>)"

text \<open>The \<^verbatim>\<open>geo\<close> dictionary and the context dictionary of \<^verbatim>\<open>verify_context\<close>.\<close>

record geo =
  country :: "string option"
  is_internal :: "bool option"

record ctx =
  ctx_device_assertion :: "device_assertion option"
  ctx_user_assertion :: "user_assertion option"
  ctx_geo :: "geo option"
  blocked_countries :: "string list option"

text \<open>The dictionary \<^verbatim>\<open>{}\<close> that stands in for an absent assertion.\<close>

definition no_device_assertion :: device_assertion where
  "no_device_assertion =
     \<lparr>device_id = None, os = None, patch_level = None, antivirus = None,
      signed_by_mdm = None, device_presented_token = None\<rparr>"

definition no_user_assertion :: user_assertion where
  "no_user_assertion =
     \<lparr>user_id = None, auth_method = None, mfa_ok = None, last_auth_time = None,
      user_role = None\<rparr>"

text \<open>\<^verbatim>\<open>sep.join(xs)\<close>.\<close>

fun join :: "string \<Rightarrow> string list \<Rightarrow> string" where
  "join sep [] = []"
| "join sep [x] = x"
| "join sep (x # y # ys) = x @ sep @ join sep (y # ys)"

text \<open>The result \<^verbatim>\<open>{"allow": ..., "score": ..., "reasons": ...}\<close> of \<^verbatim>\<open>verify_context\<close>.\<close>

record context_verdict =
  allow :: bool
  combined_score :: rat
  combined_reasons :: "string list"

text \<open>
  \<^verbatim>\<open>verify_context\<close>. The test \<^verbatim>\<open>if geo\<close> holds for a dictionary that is present and not
  empty.
\<close>

definition verify_context ::
  "(string \<Rightarrow> rat option) \<Rightarrow> (string \<Rightarrow> string) \<Rightarrow> ctx \<Rightarrow> context_verdict" where
  "verify_context age_days sha256_hex c =
     (let dres = verify_device age_days sha256_hex
                   (case ctx_device_assertion c of None \<Rightarrow> no_device_assertion | Some d \<Rightarrow> d);
          ures = verify_user age_days
                   (case ctx_user_assertion c of None \<Rightarrow> no_user_assertion | Some u \<Rightarrow> u);
          sc = (6 / 10) * score dres + (4 / 10) * score ures;
          rsn = [''device:'' @ join '';'' (reasons dres), ''user:'' @ join '';'' (reasons ures)];
          (rsn, sc) =
            (case ctx_geo c of
               None \<Rightarrow> (rsn, sc)
             | Some g \<Rightarrow>
                 if country g = None \<and> is_internal g = None then (rsn, sc)
                 else (let blocked = (case blocked_countries c of None \<Rightarrow> [] | Some b \<Rightarrow> b)
                       in case country g of
                            None \<Rightarrow> (rsn, sc)
                          | Some cc \<Rightarrow>
                              if cc \<in> set blocked
                              then (rsn @ [''geo:'' @ cc @ '' blocked''], sc - 4 / 10)
                              else (rsn, sc)));
          sc = max 0 (min 1 sc)
      in \<lparr>allow = (sc \<ge> 65 / 100), combined_score = sc, combined_reasons = rsn\<rparr>)"


section \<open>Session Monitor (\<^verbatim>\<open>zero_trust_control/session_monitor.py\<close>)\<close>

text \<open>
  A session event, with the keys and value types of the docstring of
  \<^verbatim>\<open>update_session\<close>; a field is \<open>None\<close> when the key is absent.
\<close>

record event =
  timestamp :: "rat option"
  src_ip :: "string option"
  dst_ip :: "string option"
  bytes :: "int option"
  dport :: "int option"
  event_type :: "string option"

text \<open>
  A session dictionary. The keys \<^verbatim>\<open>"alerts"\<close> and \<^verbatim>\<open>"ended_at"\<close> are absent until the first
  alert and until the session is ended. An alert is a dictionary of scalars.
\<close>

record session =
  session_id :: string
  created_at :: rat
  last_seen :: rat
  session_context :: dict
  status :: string
  cumulative_bytes :: int
  events_count :: int
  alerts :: "dict list option"
  ended_at :: "rat option"

text \<open>The module state: \<^verbatim>\<open>_sessions\<close> and \<^verbatim>\<open>_session_events\<close>.\<close>

record monitor =
  sessions :: "string \<rightharpoonup> session"
  session_events :: "string \<rightharpoonup> event list"

text \<open>
  \<^verbatim>\<open>create_session\<close>. Each operation below takes the reading \<open>now\<close> of \<^verbatim>\<open>time.time()\<close> as
  an argument; the readings within one call are taken to be the same.
\<close>

definition create_session :: "rat \<Rightarrow> string \<Rightarrow> dict \<Rightarrow> monitor \<Rightarrow> session \<times> monitor" where
  "create_session now sid c m =
     (let s = \<lparr>session_id = sid, created_at = now, last_seen = now, session_context = c,
               status = ''active'', cumulative_bytes = 0, events_count = 0,
               alerts = None, ended_at = None\<rparr>
      in (s, m\<lparr>sessions := (sessions m)(sid \<mapsto> s)\<rparr>))"

text \<open>\<^verbatim>\<open>deque(maxlen=500).append\<close>: a full window drops its oldest entry.\<close>

definition deque_append :: "'a \<Rightarrow> 'a list \<Rightarrow> 'a list" where
  "deque_append x q = (if length q \<ge> 500 then tl q @ [x] else q @ [x])"

text \<open>\<^verbatim>\<open>s.setdefault("alerts", []).append(a)\<close>.\<close>

definition append_alert :: "dict \<Rightarrow> session \<Rightarrow> session" where
  "append_alert a s = s\<lparr>alerts := Some ((case alerts s of None \<Rightarrow> [] | Some xs \<Rightarrow> xs) @ [a])\<rparr>"

text \<open>
  \<^verbatim>\<open>len({e.get("dst_ip") for e in last_events if e.get("dst_ip")})\<close>: the number of
  distinct non-empty destinations.
\<close>

definition unique_dst_count :: "event list \<Rightarrow> nat" where
  "unique_dst_count es =
     length (remdups (concat (map (\<lambda>e. case dst_ip e of
                                           None \<Rightarrow> []
                                         | Some d \<Rightarrow> if d = [] then [] else [d]) es)))"

text \<open>\<^verbatim>\<open>update_session\<close>.\<close>

definition update_session :: "rat \<Rightarrow> string \<Rightarrow> event \<Rightarrow> monitor \<Rightarrow> session \<times> monitor" where
  "update_session now sid ev m =
     (let (s, m) = (case sessions m sid of
                      None \<Rightarrow> create_session now sid [] m
                    | Some s \<Rightarrow> (s, m));
          s = s\<lparr>last_seen := now\<rparr>;
          s = s\<lparr>events_count := events_count s + 1\<rparr>;
          b = (case bytes ev of None \<Rightarrow> 0 | Some n \<Rightarrow> n);
          s = s\<lparr>cumulative_bytes := cumulative_bytes s + b\<rparr>;
          q = deque_append ev (case session_events m sid of None \<Rightarrow> [] | Some q \<Rightarrow> q);
          s = (if cumulative_bytes s > 100 * 1024 * 1024
               then append_alert [(''reason'', PStr ''high_data_transfer''),
                                  (''when'', PFloat now),
                                  (''bytes'', PInt (cumulative_bytes s))]
                      (s\<lparr>status := ''suspicious''\<rparr>)
               else s);
          last_events = drop (length q - 50) q;
          unique_dst = unique_dst_count last_events;
          s = (if unique_dst > 20
               then append_alert [(''reason'', PStr ''many_unique_destinations''),
                                  (''when'', PFloat now),
                                  (''unique_dst'', PInt (int unique_dst))]
                      (s\<lparr>status := ''suspicious''\<rparr>)
               else s)
      in (s, m\<lparr>sessions := (sessions m)(sid \<mapsto> s),
               session_events := (session_events m)(sid \<mapsto> q)\<rparr>))"

text \<open>
  \<^verbatim>\<open>check_session\<close> returns the session dictionary, or the dictionary
  \<^verbatim>\<open>{"session_id": session_id, "status": "not_found"}\<close> for an unknown id.
\<close>

datatype check_result = Found session | NotFound dict

definition check_session :: "string \<Rightarrow> monitor \<Rightarrow> check_result \<times> monitor" where
  "check_session sid m =
     (case sessions m sid of
        None \<Rightarrow> (NotFound [(''session_id'', PStr sid), (''status'', PStr ''not_found'')], m)
      | Some s \<Rightarrow>
          (let als = (case alerts s of None \<Rightarrow> [] | Some xs \<Rightarrow> xs);
               s = (if length als \<ge> 2 then s\<lparr>status := ''quarantined''\<rparr> else s)
           in (Found s, m\<lparr>sessions := (sessions m)(sid \<mapsto> s)\<rparr>)))"

text \<open>\<^verbatim>\<open>end_session\<close>.\<close>

definition end_session :: "rat \<Rightarrow> string \<Rightarrow> monitor \<Rightarrow> monitor" where
  "end_session now sid m =
     (case sessions m sid of
        None \<Rightarrow> m
      | Some s \<Rightarrow> m\<lparr>sessions := (sessions m)(sid \<mapsto> s\<lparr>status := ''ended'', ended_at := Some now\<rparr>)\<rparr>)"


section \<open>The specification's wording and concrete inputs\<close>

subsection \<open>Packet Rule Store\<close>

text \<open>
  The specification's matching condition for one field: the rule's field is the
  wildcard or equal to the packet's field (equality is Python's \<^verbatim>\<open>==\<close>).
\<close>

definition field_ok :: "dict \<Rightarrow> dict \<Rightarrow> string \<Rightarrow> bool" where
  "field_ok r pkt f \<longleftrightarrow> py_eq (get r f) (PStr ''*'') \<or> py_eq (get r f) (get pkt f)"

text \<open>
  The specification's matching condition for a rule: every one of the four fields is the
  wildcard or equal to the packet's field. (A wildcard port matches every packet, so also
  one without a port.)
\<close>

definition spec_rule_matches :: "dict \<Rightarrow> dict \<Rightarrow> bool" where
  "spec_rule_matches r pkt \<longleftrightarrow>
     field_ok r pkt ''src_ip'' \<and> field_ok r pkt ''dst_ip'' \<and> field_ok r pkt ''protocol''
   \<and> field_ok r pkt ''port''"

text \<open>The same condition, where a rule without a port (absent or null) matches every port.\<close>

definition amended_rule_matches :: "dict \<Rightarrow> dict \<Rightarrow> bool" where
  "amended_rule_matches r pkt \<longleftrightarrow>
     field_ok r pkt ''src_ip'' \<and> field_ok r pkt ''dst_ip'' \<and> field_ok r pkt ''protocol''
   \<and> (field_ok r pkt ''port'' \<or> get r ''port'' = PNone)"

text \<open>The rule and the packets of the specification's example.\<close>

definition rule_r1 :: dict where
  "rule_r1 = [(''id'', PStr ''r1''), (''src_ip'', PStr ''10.0.0.5''), (''dst_ip'', PStr ''*''),
              (''protocol'', PStr ''TCP''), (''port'', PInt 80), (''action'', PStr ''allow'')]"

definition packet_tcp :: dict where
  "packet_tcp = [(''src_ip'', PStr ''10.0.0.5''), (''dst_ip'', PStr ''8.8.8.8''),
                 (''protocol'', PStr ''TCP''), (''port'', PInt 80)]"

definition packet_udp :: dict where
  "packet_udp = [(''src_ip'', PStr ''10.0.0.5''), (''dst_ip'', PStr ''8.8.8.8''),
                 (''protocol'', PStr ''UDP''), (''port'', PInt 80)]"

text \<open>A rule that has no \<^verbatim>\<open>"port"\<close> key.\<close>

definition rule_no_port :: dict where
  "rule_no_port = [(''id'', PStr ''any''), (''src_ip'', PStr ''*''), (''dst_ip'', PStr ''*''),
                   (''protocol'', PStr ''*''), (''action'', PStr ''allow'')]"


subsection \<open>Decision Combiner and Response Dispatcher\<close>

text \<open>
  A float printer for the concrete inputs below; none of them prints a float.
\<close>

definition example_float_repr :: "rat \<Rightarrow> string" where
  "example_float_repr r = ''<float>''"

text \<open>The packet of the specification's example, and a rule that allows everything.\<close>

definition packet_malicious :: dict where
  "packet_malicious = [(''src_ip'', PStr ''192.168.1.50''), (''dst_ip'', PStr ''8.8.8.8''),
                       (''protocol'', PStr ''TCP''), (''port'', PInt 443),
                       (''ai_pred'', PStr ''malicious''), (''ai_confidence'', PFloat (93 / 100))]"

definition rule_allow_all :: dict where
  "rule_allow_all = [(''id'', PStr ''open''), (''src_ip'', PStr ''*''), (''dst_ip'', PStr ''*''),
                     (''protocol'', PStr ''*''), (''port'', PStr ''*''), (''action'', PStr ''allow'')]"

text \<open>The rule \<^verbatim>\<open>block_ip\<close> synthesizes for a source address.\<close>

definition synthesized_rule :: "(rat \<Rightarrow> string) \<Rightarrow> pyval \<Rightarrow> dict" where
  "synthesized_rule float_repr ip =
     [(''id'', PStr (''auto_block_'' @ py_str float_repr ip)), (''src_ip'', ip),
      (''dst_ip'', PStr ''*''), (''protocol'', PStr ''*''), (''port'', PStr ''*''),
      (''action'', PStr ''deny'')]"

text \<open>One line of the action log.\<close>

definition log_line :: "string \<Rightarrow> json \<Rightarrow> json" where
  "log_line act data = JObject [(''action'', JString act), (''data'', data)]"

text \<open>A world with an empty rule store, no files and an empty action log.\<close>

definition empty_world :: world where
  "empty_world = \<lparr>engine = \<lparr>persist_path = ''firewall_engine/logs/rules.json'', rules = []\<rparr>,
                   files = Map.empty, action_log = []\<rparr>"

definition packet_from :: dict where
  "packet_from = [(''src_ip'', PStr ''192.168.1.50'')]"

subsection \<open>Policy Rule Engine\<close>

text \<open>The two results of \<open>evaluate\<close>: the default, and the one for a matching rule.\<close>

definition default_deny :: dict where
  "default_deny = [(''action'', PStr ''deny''), (''rule'', PStr ''default-deny'')]"

definition rule_result :: "('c, 'r) rule \<Rightarrow> dict" where
  "rule_result r = [(''action'', PStr (action r)), (''rule'', PStr (name r))]"

text \<open>
  The rule whose predicate never raises: where the predicate of \<open>r\<close> raises, it answers
  \<^verbatim>\<open>False\<close>.
\<close>

definition quiet :: "('c, 'r) rule \<Rightarrow> ('c, 'r) rule" where
  "quiet r = r\<lparr>predicate := (\<lambda>c res. case predicate r c res of
                                          Inl err \<Rightarrow> Inr False
                                        | Inr b \<Rightarrow> Inr b)\<rparr>"

text \<open>The rule list of a fresh engine after a sequence of \<^verbatim>\<open>add_rule\<close> calls.\<close>

definition add_rules :: "('c, 'r) rule list \<Rightarrow> ('c, 'r) rule list" where
  "add_rules xs = foldl (\<lambda>rs r. policy_add_rule r rs) [] xs"

definition rule_raising :: "(unit, unit) rule" where
  "rule_raising = \<lparr>name = ''broken'', predicate = (\<lambda>c res. Inl (Exception ''boom'')),
                   action = ''allow'', priority = 10\<rparr>"

definition rule_never :: "(unit, unit) rule" where
  "rule_never = \<lparr>name = ''never'', predicate = (\<lambda>c res. Inr False),
                 action = ''allow'', priority = 20\<rparr>"

definition rule_allow_low :: "(unit, unit) rule" where
  "rule_allow_low = \<lparr>name = ''first'', predicate = (\<lambda>c res. Inr True),
                     action = ''allow'', priority = 5\<rparr>"

definition rule_deny_high :: "(unit, unit) rule" where
  "rule_deny_high = \<lparr>name = ''second'', predicate = (\<lambda>c res. Inr True),
                     action = ''deny'', priority = 50\<rparr>"

subsection \<open>Trust Assessor\<close>

text \<open>
  A context from a blocked country whose device and user assertions earn the highest
  scores the two verifiers give, with a clock and a hash under which the patch and the
  authentication are recent and the token is valid.
\<close>

definition best_device :: device_assertion where
  "best_device = \<lparr>device_id = Some ''devX'', os = None, patch_level = Some ''2025-09-30'',
                   antivirus = Some ''up_to_date'', signed_by_mdm = Some True,
                   device_presented_token = Some ''token''\<rparr>"

definition best_user :: user_assertion where
  "best_user = \<lparr>user_id = Some ''bob'', auth_method = Some ''mfa'', mfa_ok = Some True,
                 last_auth_time = Some ''2025-10-27'', user_role = Some ''user''\<rparr>"

definition ctx_blocked_best :: ctx where
  "ctx_blocked_best =
     \<lparr>ctx_device_assertion = Some best_device, ctx_user_assertion = Some best_user,
      ctx_geo = Some \<lparr>country = Some ''XX'', is_internal = None\<rparr>,
      blocked_countries = Some [''XX'']\<rparr>"

definition age_zero :: "string \<Rightarrow> rat option" where
  "age_zero s = Some 0"

definition hash_zero :: "string \<Rightarrow> string" where
  "hash_zero s = ''0000000000''"


subsection \<open>Session Monitor\<close>

text \<open>The alert list of a session (\<^verbatim>\<open>s.get("alerts", [])\<close>) and the test for an alert tag.\<close>

definition alerts_of :: "session \<Rightarrow> dict list" where
  "alerts_of s = (case alerts s of None \<Rightarrow> [] | Some xs \<Rightarrow> xs)"

definition has_alert :: "string \<Rightarrow> session \<Rightarrow> bool" where
  "has_alert tag s = list_ex (\<lambda>a. get a ''reason'' = PStr tag) (alerts_of s)"

text \<open>The byte count an event carries: \<^verbatim>\<open>event.get("bytes", 0)\<close>.\<close>

definition event_bytes :: "event \<Rightarrow> int" where
  "event_bytes ev = (case bytes ev of None \<Rightarrow> 0 | Some n \<Rightarrow> n)"

text \<open>Feeding a session a sequence of events, each with the clock reading of its call.\<close>

fun feed :: "string \<Rightarrow> (rat \<times> event) list \<Rightarrow> monitor \<Rightarrow> monitor" where
  "feed sid [] m = m"
| "feed sid ((now, ev) # es) m = feed sid es (snd (update_session now sid ev m))"

text \<open>
  A fresh session: one that has just been created, or one that does not exist yet and is
  created by the first \<open>update_session\<close>.
\<close>

definition fresh :: "string \<Rightarrow> monitor \<Rightarrow> bool" where
  "fresh sid m = (case sessions m sid of
                    None \<Rightarrow> True
                  | Some s \<Rightarrow> cumulative_bytes s = 0 \<and> alerts s = None)"

text \<open>
  The byte counter and the presence of a \<open>high_data_transfer\<close> alert, read for a session
  id; the values for an unknown id are those of the session the next update creates.
\<close>

definition cum :: "monitor \<Rightarrow> string \<Rightarrow> int" where
  "cum m sid = (case sessions m sid of None \<Rightarrow> 0 | Some s \<Rightarrow> cumulative_bytes s)"

definition hdt :: "monitor \<Rightarrow> string \<Rightarrow> bool" where
  "hdt m sid = (case sessions m sid of
                  None \<Rightarrow> False
                | Some s \<Rightarrow> has_alert ''high_data_transfer'' s)"

text \<open>The byte counter of a session, when the session exists.\<close>

definition counter :: "monitor \<Rightarrow> string \<Rightarrow> int option" where
  "counter m sid = map_option cumulative_bytes (sessions m sid)"

text \<open>The operations of the Session Monitor, and sequences of them.\<close>

datatype operation =
    Create rat string dict | Update rat string event | Check string | End rat string

fun step :: "operation \<Rightarrow> monitor \<Rightarrow> monitor" where
  "step (Create now sid c) m = snd (create_session now sid c m)"
| "step (Update now sid ev) m = snd (update_session now sid ev m)"
| "step (Check sid) m = snd (check_session sid m)"
| "step (End now sid) m = end_session now sid m"

fun run :: "operation list \<Rightarrow> monitor \<Rightarrow> monitor" where
  "run [] m = m"
| "run (x # xs) m = run xs (step x m)"

text \<open>
  The operations that are not a \<open>create_session\<close> on the session \<open>sid\<close> and not an
  \<open>update_session\<close> on it with a negative byte count.
\<close>

fun keeps_counter :: "string \<Rightarrow> operation \<Rightarrow> bool" where
  "keeps_counter sid (Create now i c) = (i \<noteq> sid)"
| "keeps_counter sid (Update now i ev) = (i \<noteq> sid \<or> 0 \<le> event_bytes ev)"
| "keeps_counter sid (Check i) = True"
| "keeps_counter sid (End now i) = True"

text \<open>Concrete events, an empty monitor, and a session that carries two alerts.\<close>

definition event_mib :: event where
  "event_mib = \<lparr>timestamp = None, src_ip = None, dst_ip = None, bytes = Some 1048576,
                 dport = None, event_type = None\<rparr>"

definition event_bytes_of :: "int option \<Rightarrow> event" where
  "event_bytes_of b = \<lparr>timestamp = None, src_ip = None, dst_ip = None, bytes = b,
                        dport = None, event_type = None\<rparr>"

definition empty_monitor :: monitor where
  "empty_monitor = \<lparr>sessions = Map.empty, session_events = Map.empty\<rparr>"

definition session_two_alerts :: session where
  "session_two_alerts =
     \<lparr>session_id = ''s1'', created_at = 0, last_seen = 2, session_context = [],
      status = ''suspicious'', cumulative_bytes = 0, events_count = 2,
      alerts = Some [[(''reason'', PStr ''many_unique_destinations''), (''when'', PFloat 1),
                      (''unique_dst'', PInt 21)],
                     [(''reason'', PStr ''many_unique_destinations''), (''when'', PFloat 2),
                      (''unique_dst'', PInt 22)]],
      ended_at = None\<rparr>"

definition monitor_two_alerts :: monitor where
  "monitor_two_alerts = \<lparr>sessions = [''s1'' \<mapsto> session_two_alerts],
                          session_events = Map.empty\<rparr>"


section \<open>Facts about values\<close>

lemma py_eq_PNone [simp]: "py_eq v PNone \<longleftrightarrow> v = PNone"
  by (cases v) (simp_all add: py_eq_def)

lemma py_eq_PNone_left [simp]: "py_eq PNone v \<longleftrightarrow> v = PNone"
  by (cases v) (auto simp add: py_eq_def)

lemma py_eq_PStr [simp]: "py_eq v (PStr s) \<longleftrightarrow> v = PStr s"
  by (cases v) (simp_all add: py_eq_def)

lemma py_eq_PStr_left [simp]: "py_eq (PStr s) v \<longleftrightarrow> v = PStr s"
  by (cases v) (auto simp add: py_eq_def)

lemma py_eq_PInt [simp]: "py_eq (PInt i) (PInt j) \<longleftrightarrow> i = j"
  by (simp add: py_eq_def)


section \<open>Packet Rule Store: first match wins\<close>

lemma rule_matches_amended: "rule_matches r pkt = amended_rule_matches r pkt"
  by (auto simp add: rule_matches_def amended_rule_matches_def field_ok_def py_in_def)

lemma match_find: "match rs pkt = find (\<lambda>r. rule_matches r pkt) rs"
  by (induction rs) simp_all

lemma match_None: "match rs pkt = None \<longleftrightarrow> (\<forall>r\<in>set rs. \<not> rule_matches r pkt)"
  by (induction rs) simp_all

text \<open>
  The rule returned is the first matching one in stored order: it splits the list into a
  prefix without a match, itself, and the rest.
\<close>

lemma match_Some:
  "match rs pkt = Some r \<longleftrightarrow>
     (\<exists>pre post. rs = pre @ r # post \<and> rule_matches r pkt
                 \<and> (\<forall>x\<in>set pre. \<not> rule_matches x pkt))"
proof (induction rs)
  case Nil
  then show ?case by simp
next
  case (Cons a rs)
  show ?case
  proof (cases "rule_matches a pkt")
    case True
    have "(\<exists>pre post. a # rs = pre @ r # post \<and> rule_matches r pkt
             \<and> (\<forall>x\<in>set pre. \<not> rule_matches x pkt)) \<longleftrightarrow> a = r"
    proof
      assume "\<exists>pre post. a # rs = pre @ r # post \<and> rule_matches r pkt
             \<and> (\<forall>x\<in>set pre. \<not> rule_matches x pkt)"
      then obtain pre post where p: "a # rs = pre @ r # post"
        and n: "\<forall>x\<in>set pre. \<not> rule_matches x pkt" by blast
      show "a = r"
      proof (cases pre)
        case Nil
        with p show ?thesis by simp
      next
        case (Cons b pre')
        with p have "b = a" by simp
        with Cons n True show ?thesis by simp
      qed
    next
      assume "a = r"
      with True have "a # rs = [] @ r # rs \<and> rule_matches r pkt
             \<and> (\<forall>x\<in>set []. \<not> rule_matches x pkt)" by simp
      then show "\<exists>pre post. a # rs = pre @ r # post \<and> rule_matches r pkt
             \<and> (\<forall>x\<in>set pre. \<not> rule_matches x pkt)" by blast
    qed
    with True show ?thesis by simp
  next
    case False
    have "(\<exists>pre post. a # rs = pre @ r # post \<and> rule_matches r pkt
             \<and> (\<forall>x\<in>set pre. \<not> rule_matches x pkt))
          \<longleftrightarrow> (\<exists>pre post. rs = pre @ r # post \<and> rule_matches r pkt
             \<and> (\<forall>x\<in>set pre. \<not> rule_matches x pkt))"
    proof
      assume "\<exists>pre post. a # rs = pre @ r # post \<and> rule_matches r pkt
             \<and> (\<forall>x\<in>set pre. \<not> rule_matches x pkt)"
      then obtain pre post where p: "a # rs = pre @ r # post" and m: "rule_matches r pkt"
        and n: "\<forall>x\<in>set pre. \<not> rule_matches x pkt" by blast
      from p m False obtain pre' where "pre = a # pre'" by (cases pre) auto
      with p n have "rs = pre' @ r # post \<and> (\<forall>x\<in>set pre'. \<not> rule_matches x pkt)" by simp
      with m show "\<exists>pre post. rs = pre @ r # post \<and> rule_matches r pkt
             \<and> (\<forall>x\<in>set pre. \<not> rule_matches x pkt)" by blast
    next
      assume "\<exists>pre post. rs = pre @ r # post \<and> rule_matches r pkt
             \<and> (\<forall>x\<in>set pre. \<not> rule_matches x pkt)"
      then obtain pre post where p: "rs = pre @ r # post" and m: "rule_matches r pkt"
        and n: "\<forall>x\<in>set pre. \<not> rule_matches x pkt" by blast
      from p n False have "a # rs = (a # pre) @ r # post
             \<and> (\<forall>x\<in>set (a # pre). \<not> rule_matches x pkt)" by simp
      with m show "\<exists>pre post. a # rs = pre @ r # post \<and> rule_matches r pkt
             \<and> (\<forall>x\<in>set pre. \<not> rule_matches x pkt)" by blast
    qed
    with False Cons.IH show ?thesis by simp
  qed
qed

text \<open>
  Claim C4, as the specification states it, fails: a stored rule without a port matches a
  packet with port 80, although its port is neither the wildcard nor equal to the
  packet's port, and \<open>decide\<close> answers with that rule's action instead of the default.
\<close>

theorem match_rule_without_port_counterexample:
  "match [rule_no_port] packet_tcp = Some rule_no_port
   \<and> \<not> spec_rule_matches rule_no_port packet_tcp
   \<and> decide [rule_no_port] packet_tcp = PStr ''allow''"
  by (simp add: decide_def rule_matches_def py_in_def get_def rule_no_port_def packet_tcp_def
        spec_rule_matches_def field_ok_def)

text \<open>
  Claim C4, amended. For every stored rule list and every packet, \<open>match\<close> returns the
  first rule in stored order such that each of \<open>src_ip\<close>, \<open>dst_ip\<close>, \<open>protocol\<close> is the
  wildcard or equal to the packet's field and \<open>port\<close> is the wildcard, equal to the
  packet's port, or absent from the rule; it returns none when there is no such rule.
  \<open>decide\<close> returns that rule's action when a (non-empty) rule was found and \<open>"deny"\<close>
  otherwise. On the empty store \<open>decide\<close> is \<open>"deny"\<close>; after adding rule \<open>r1\<close> to an empty
  store the example packet decides \<open>"allow"\<close>, and \<open>"deny"\<close> with protocol UDP.
\<close>

theorem match_first_amended_rule:
  "match rs pkt = find (\<lambda>r. amended_rule_matches r pkt) rs
   \<and> decide rs pkt = (case find (\<lambda>r. amended_rule_matches r pkt) rs of
                        None \<Rightarrow> PStr ''deny''
                      | Some r \<Rightarrow> if r = [] then PStr ''deny'' else get r ''action'')
   \<and> decide [] pkt = PStr ''deny''
   \<and> decide (rules (fst (add_rule rule_r1 \<lparr>persist_path = path, rules = []\<rparr> fsys))) packet_tcp
       = PStr ''allow''
   \<and> decide (rules (fst (add_rule rule_r1 \<lparr>persist_path = path, rules = []\<rparr> fsys))) packet_udp
       = PStr ''deny''"
proof -
  have m: "match rs pkt = find (\<lambda>r. amended_rule_matches r pkt) rs"
    by (simp add: match_find rule_matches_amended)
  have d: "decide rs pkt = (case find (\<lambda>r. amended_rule_matches r pkt) rs of
                        None \<Rightarrow> PStr ''deny''
                      | Some r \<Rightarrow> if r = [] then PStr ''deny'' else get r ''action'')"
    unfolding decide_def m by (simp split: option.splits)
  have e: "decide [] pkt = PStr ''deny''"
    by (simp add: decide_def)
  have r: "rules (fst (add_rule rule_r1 \<lparr>persist_path = path, rules = []\<rparr> fsys)) = [rule_r1]"
    by (simp add: add_rule_def Let_def)
  have t: "decide [rule_r1] packet_tcp = PStr ''allow''"
    by (simp add: decide_def rule_matches_def py_in_def get_def rule_r1_def packet_tcp_def)
  have u: "decide [rule_r1] packet_udp = PStr ''deny''"
    by (simp add: decide_def rule_matches_def py_in_def get_def rule_r1_def packet_udp_def)
  show ?thesis using m d e t u unfolding r by blast
qed


section \<open>Decision Combiner: the AI short-circuit\<close>

lemma get_default_get: "get d k \<noteq> PNone \<Longrightarrow> get_default d k dflt = get d k"
  by (simp add: get_def get_default_def split: option.splits)

text \<open>
  Claim C1, as the specification states it, fails: for the example packet (predicted
  malicious with confidence 0.93) the decision is \<open>"block"\<close>, not \<open>"deny"\<close>.
\<close>

theorem inspect_packet_ai_not_deny_counterexample:
  "inspect_packet example_float_repr [rule_allow_all] packet_malicious
     = Inr \<lparr>decision = PStr ''block'', reason = ''AI detected malicious'',
            packet = packet_malicious\<rparr>
   \<and> inspect_packet example_float_repr [rule_allow_all] packet_malicious
     \<noteq> Inr \<lparr>decision = PStr ''deny'', reason = ''AI detected malicious'',
            packet = packet_malicious\<rparr>"
  by (simp add: inspect_packet_def Let_def get_def get_default_def py_gt_def
        packet_malicious_def)

text \<open>
  Claim C1, amended. For every packet whose \<open>ai_pred\<close> is \<open>"malicious"\<close> and whose
  \<open>ai_confidence\<close> is a number strictly greater than 0.8, \<open>inspect_packet\<close> returns the
  decision \<open>"block"\<close> with reason \<open>"AI detected malicious"\<close> and the packet itself,
  whatever the rule list holds.
\<close>

theorem inspect_packet_ai_block:
  assumes "get pkt ''ai_pred'' = PStr ''malicious''"
    and "num_val (get pkt ''ai_confidence'') = Some c" and "c > 8 / 10"
  shows "inspect_packet float_repr rs pkt
           = Inr \<lparr>decision = PStr ''block'', reason = ''AI detected malicious'', packet = pkt\<rparr>"
proof -
  from assms(2) have "get pkt ''ai_confidence'' \<noteq> PNone" by auto
  then have "get_default pkt ''ai_confidence'' (PInt 0) = get pkt ''ai_confidence''"
    by (rule get_default_get)
  with assms show ?thesis
    by (simp add: inspect_packet_def Let_def py_gt_def)
qed

text \<open>
  The example packet meets the hypotheses; the rule list holds a rule that allows it, and
  the decision is \<open>"block"\<close> all the same.
\<close>

theorem inspect_packet_ai_block_witness:
  "decide [rule_allow_all] packet_malicious = PStr ''allow''
   \<and> inspect_packet example_float_repr [rule_allow_all] packet_malicious
       = Inr \<lparr>decision = PStr ''block'', reason = ''AI detected malicious'',
              packet = packet_malicious\<rparr>"
proof -
  have a: "get packet_malicious ''ai_pred'' = PStr ''malicious''"
    by (simp add: get_def packet_malicious_def)
  have b: "num_val (get packet_malicious ''ai_confidence'') = Some (93 / 100)"
    by (simp add: get_def packet_malicious_def)
  have c: "(93 / 100 :: rat) > 8 / 10"
    by simp
  have d: "decide [rule_allow_all] packet_malicious = PStr ''allow''"
    by (simp add: decide_def rule_matches_def py_in_def get_def rule_allow_all_def
          packet_malicious_def)
  show ?thesis
    using inspect_packet_ai_block [OF a b c, of example_float_repr "[rule_allow_all]"] d
    by simp
qed


section \<open>Response Dispatcher: what each decision triggers\<close>

lemma log_action_line:
  "log_action act data w = w\<lparr>action_log := action_log w @ [log_line act data]\<rparr>"
  by (simp add: log_action_def log_line_def)

text \<open>
  Claim C3, as the specification states it, fails: for a decision \<open>"deny"\<close> no rule is
  inserted and no alert is emitted; the only effect is the log line of the simulated host
  isolation.
\<close>

theorem respond_to_deny_counterexample:
  "rules (engine (respond_to_decision example_float_repr
            \<lparr>decision = PStr ''deny'', reason = ''Rule-based decision (deny)'',
             packet = packet_from\<rparr> empty_world)) = []
   \<and> action_log (respond_to_decision example_float_repr
            \<lparr>decision = PStr ''deny'', reason = ''Rule-based decision (deny)'',
             packet = packet_from\<rparr> empty_world)
       = [log_line ''isolate_host'' (JObject [(''host'', JString ''192.168.1.50'')])]"
  by (simp add: respond_to_decision_def isolate_host_def log_action_line get_def
        packet_from_def empty_world_def)

text \<open>
  Claim C3, amended. For a decision \<open>"block"\<close>, \<open>respond_to_decision\<close> appends to the
  Packet Rule Store (and persists) one synthesized rule with \<open>src_ip\<close> the packet's source
  address, \<open>"*"\<close> for \<open>dst_ip\<close>, \<open>protocol\<close> and \<open>port\<close>, and action \<open>"deny"\<close>, and writes
  a \<open>block_ip\<close> log line followed by an alert. For \<open>"allow"\<close> it only writes a log line.
  For any other decision, \<open>"deny"\<close> included, it only writes the log line of the simulated
  host isolation: the store is unchanged and there is no alert.
\<close>

theorem respond_to_decision_cases:
  "(decision d = PStr ''block'' \<longrightarrow>
      respond_to_decision float_repr d w
        = w\<lparr>engine := (engine w)\<lparr>rules := rules (engine w)
                                    @ [synthesized_rule float_repr (get (packet d) ''src_ip'')]\<rparr>,
            files := (files w)(persist_path (engine w) \<mapsto>
                        json_dump (rules (engine w)
                                    @ [synthesized_rule float_repr (get (packet d) ''src_ip'')])),
            action_log := action_log w
              @ [log_line ''block_ip'' (JObject [(''ip'', json_of_val (get (packet d) ''src_ip''))]),
                 log_line ''alert'' (JObject [(''message'', JString ''Blocked malicious packet''),
                                             (''details'', json_of_dict (packet d))])]\<rparr>)
   \<and> (decision d = PStr ''allow'' \<longrightarrow>
        respond_to_decision float_repr d w
          = w\<lparr>action_log := action_log w @ [log_line ''allow'' (json_of_dict (packet d))]\<rparr>)
   \<and> (decision d \<noteq> PStr ''block'' \<and> decision d \<noteq> PStr ''allow'' \<longrightarrow>
        respond_to_decision float_repr d w
          = w\<lparr>action_log := action_log w
                @ [log_line ''isolate_host''
                     (JObject [(''host'', json_of_val (get (packet d) ''src_ip''))])]\<rparr>)"
  by (simp add: respond_to_decision_def Let_def block_ip_def send_alert_def isolate_host_def
        log_action_line add_rule_def save_def synthesized_rule_def)

text \<open>The three cases, each at a concrete decision on the empty world.\<close>

theorem respond_to_decision_cases_witness:
  "rules (engine (respond_to_decision example_float_repr
            \<lparr>decision = PStr ''block'', reason = ''AI detected malicious'',
             packet = packet_from\<rparr> empty_world))
     = [[(''id'', PStr ''auto_block_192.168.1.50''), (''src_ip'', PStr ''192.168.1.50''),
         (''dst_ip'', PStr ''*''), (''protocol'', PStr ''*''), (''port'', PStr ''*''),
         (''action'', PStr ''deny'')]]
   \<and> action_log (respond_to_decision example_float_repr
            \<lparr>decision = PStr ''block'', reason = ''AI detected malicious'',
             packet = packet_from\<rparr> empty_world)
     = [log_line ''block_ip'' (JObject [(''ip'', JString ''192.168.1.50'')]),
        log_line ''alert'' (JObject [(''message'', JString ''Blocked malicious packet''),
                                    (''details'', JObject [(''src_ip'', JString ''192.168.1.50'')])])]
   \<and> respond_to_decision example_float_repr
            \<lparr>decision = PStr ''allow'', reason = ''Rule-based decision (allow)'',
             packet = packet_from\<rparr> empty_world
     = empty_world\<lparr>action_log :=
         [log_line ''allow'' (JObject [(''src_ip'', JString ''192.168.1.50'')])]\<rparr>
   \<and> respond_to_decision example_float_repr
            \<lparr>decision = PStr ''quarantine'', reason = ''Rule-based decision (quarantine)'',
             packet = packet_from\<rparr> empty_world
     = empty_world\<lparr>action_log :=
         [log_line ''isolate_host'' (JObject [(''host'', JString ''192.168.1.50'')])]\<rparr>"
  using
    respond_to_decision_cases [of "\<lparr>decision = PStr ''block'',
      reason = ''AI detected malicious'', packet = packet_from\<rparr>" example_float_repr empty_world]
    respond_to_decision_cases [of "\<lparr>decision = PStr ''allow'',
      reason = ''Rule-based decision (allow)'', packet = packet_from\<rparr>" example_float_repr
      empty_world]
    respond_to_decision_cases [of "\<lparr>decision = PStr ''quarantine'',
      reason = ''Rule-based decision (quarantine)'', packet = packet_from\<rparr>" example_float_repr
      empty_world]
  by (simp add: empty_world_def get_def packet_from_def synthesized_rule_def json_of_dict_def)


section \<open>Packet Rule Store: persistence round trip\<close>

lemma val_of_json_of_val: "val_of_json (json_of_val v) = Some v"
  by (cases v) simp_all

lemma fields_of_json_map: "fields_of_json (map (\<lambda>(k, v). (k, json_of_val v)) d) = Some d"
  by (induction d) (auto simp add: val_of_json_of_val)

lemma dict_of_json_of_dict: "dict_of_json (json_of_dict d) = Some d"
  by (simp add: json_of_dict_def fields_of_json_map)

lemma dicts_of_json_map: "dicts_of_json (map json_of_dict rs) = Some rs"
  by (induction rs) (simp_all add: dict_of_json_of_dict)

lemma json_load_dump: "json_load (json_dump rs) = Some rs"
  by (simp add: json_dump_def dicts_of_json_map)

text \<open>
  Claim C8. For every rule store and every packet: after \<open>save\<close>, both \<open>load\<close> on the
  store and a new store constructed on the same path hold a rule list identical in content
  and order to the one saved, so \<open>decide\<close> gives the same action before and after the
  round trip.
\<close>

theorem save_load_round_trip:
  "load e (save e fsys) = Some e
   \<and> new_rule_engine (persist_path e) (save e fsys)
       = Some \<lparr>persist_path = persist_path e, rules = rules e\<rparr>
   \<and> (\<exists>e'. new_rule_engine (persist_path e) (save e fsys) = Some e'
           \<and> rules e' = rules e \<and> decide (rules e') pkt = decide (rules e) pkt)"
  by (simp add: load_def save_def new_rule_engine_def json_load_dump)


section \<open>Policy Rule Engine: default deny and priority order\<close>

lemma evaluate_find:
  "evaluate rs c res = (case find (\<lambda>r. applies r c res) rs of
                          None \<Rightarrow> default_deny | Some r \<Rightarrow> rule_result r)"
  by (induction rs) (simp_all add: default_deny_def rule_result_def)

lemma applies_quiet: "applies (quiet r) c res = applies r c res"
  by (simp add: applies_def quiet_def split: sum.splits)

lemma evaluate_quiet: "evaluate (map quiet rs) c res = evaluate rs c res"
  by (induction rs) (simp_all add: applies_quiet, simp add: quiet_def)

text \<open>
  Claim C2. For every rule list in which each rule's predicate, applied to the given
  context and resource, returns false or raises, \<open>evaluate\<close> returns the record with
  action \<open>"deny"\<close> and rule \<open>"default-deny"\<close> (\<open>evaluate\<close> has no raising branch). A
  raising predicate counts as a non-matching one: replacing every rule by the rule that
  answers false where the predicate raises does not change the result of \<open>evaluate\<close>.
\<close>

theorem evaluate_default_deny:
  "((\<forall>r\<in>set rs. predicate r c res = Inr False \<or> (\<exists>err. predicate r c res = Inl err))
      \<longrightarrow> evaluate rs c res = [(''action'', PStr ''deny''), (''rule'', PStr ''default-deny'')])
   \<and> evaluate (map quiet rs) c res = evaluate rs c res"
proof
  show "(\<forall>r\<in>set rs. predicate r c res = Inr False \<or> (\<exists>err. predicate r c res = Inl err))
     \<longrightarrow> evaluate rs c res = [(''action'', PStr ''deny''), (''rule'', PStr ''default-deny'')]"
    by (induction rs) (auto simp add: applies_def)
  show "evaluate (map quiet rs) c res = evaluate rs c res"
    by (rule evaluate_quiet)
qed

text \<open>A rule whose predicate raises, followed by one whose predicate returns false.\<close>

theorem evaluate_default_deny_witness:
  "evaluate [rule_raising, rule_never] () ()
     = [(''action'', PStr ''deny''), (''rule'', PStr ''default-deny'')]"
proof -
  have "\<forall>r\<in>set [rule_raising, rule_never].
          predicate r () () = Inr False \<or> (\<exists>err. predicate r () () = Inl err)"
    by (simp add: rule_raising_def rule_never_def)
  with evaluate_default_deny [of "[rule_raising, rule_never]" "()" "()"] show ?thesis
    by blast
qed

lemma filter_key_sort_key:
  fixes f :: "'a \<Rightarrow> 'k::linorder"
  shows "filter (\<lambda>x. f k = f x) (sort_key f zs) = filter (\<lambda>x. f k = f x) zs"
proof -
  have "(\<lambda>x. f k = f x) = (\<lambda>y. f y = f k)" by auto
  then show ?thesis by (simp add: sort_key_stable)
qed

text \<open>Sorting again after appending gives the stable sort of the whole sequence.\<close>

lemma sort_key_sort_key_append:
  fixes f :: "'a \<Rightarrow> 'k::linorder"
  shows "sort_key f (sort_key f xs @ ys) = sort_key f (xs @ ys)"
proof (rule properties_for_sort_key [symmetric])
  show "mset (sort_key f (sort_key f xs @ ys)) = mset (xs @ ys)" by simp
  show "sorted (map f (sort_key f (sort_key f xs @ ys)))" by simp
  fix k
  show "filter (\<lambda>x. f k = f x) (sort_key f (sort_key f xs @ ys))
          = filter (\<lambda>x. f k = f x) (xs @ ys)"
    by (simp add: filter_key_sort_key)
qed

lemma add_rules_sort: "add_rules xs = sort_key priority xs"
proof (induction xs rule: rev_induct)
  case Nil
  then show ?case by (simp add: add_rules_def)
next
  case (snoc x xs)
  have "add_rules (xs @ [x]) = policy_add_rule x (add_rules xs)"
    by (simp add: add_rules_def)
  also have "\<dots> = sort_key priority (sort_key priority xs @ [x])"
    by (simp add: policy_add_rule_def snoc.IH)
  also have "\<dots> = sort_key priority (xs @ [x])"
    by (rule sort_key_sort_key_append)
  finally show ?case .
qed

lemma find_filter: "find P (filter Q xs) = find (\<lambda>x. Q x \<and> P x) xs"
  by (induction xs) simp_all

lemma find_Some_split:
  "find P xs = Some w \<Longrightarrow> \<exists>pre post. xs = pre @ w # post \<and> P w \<and> (\<forall>x\<in>set pre. \<not> P x)"
proof (induction xs)
  case Nil
  then show ?case by simp
next
  case (Cons a xs)
  show ?case
  proof (cases "P a")
    case True
    with Cons.prems have "a = w" by simp
    with True have "a # xs = [] @ w # xs \<and> P w \<and> (\<forall>x\<in>set []. \<not> P x)" by simp
    then show ?thesis by blast
  next
    case False
    with Cons.prems have "find P xs = Some w" by simp
    from Cons.IH [OF this] obtain pre post where
      "xs = pre @ w # post" "P w" "\<forall>x\<in>set pre. \<not> P x" by blast
    with False have "a # xs = (a # pre) @ w # post \<and> P w \<and> (\<forall>x\<in>set (a # pre). \<not> P x)"
      by simp
    then show ?thesis by blast
  qed
qed

text \<open>
  In a list sorted by key, the first element with a property has the least key among the
  elements with that property.
\<close>

lemma find_sorted_least:
  fixes f :: "'a \<Rightarrow> 'k::linorder"
  assumes "sorted (map f ys)" and "find P ys = Some w" and "r \<in> set ys" and "P r"
  shows "f w \<le> f r"
proof -
  from find_Some_split [OF assms(2)] obtain pre post where
    ys: "ys = pre @ w # post" and n: "\<forall>x\<in>set pre. \<not> P x" by blast
  from assms(3,4) n ys have "r = w \<or> r \<in> set post" by auto
  moreover from assms(1) ys have "\<forall>x\<in>set post. f w \<le> f x"
    by (simp add: sorted_append)
  ultimately show ?thesis by auto
qed

lemma find_exists: "r \<in> set ys \<Longrightarrow> P r \<Longrightarrow> \<exists>w. find P ys = Some w"
  by (cases "find P ys") (auto simp add: find_None_iff)

lemma find_Some_holds: "find P ys = Some w \<Longrightarrow> P w \<and> w \<in> set ys"
  by (auto simp add: find_Some_iff)

lemma find_conj_key:
  assumes "find P ys = Some w"
  shows "find (\<lambda>x. f x = f w \<and> P x) ys = Some w"
  using assms by (induction ys) (auto split: if_splits)

text \<open>
  Claim C5. After any sequence \<open>xs\<close> of \<open>add_rule\<close> calls on a fresh engine, the rule list
  is the stable sort of \<open>xs\<close> by priority (ascending priority, ties in insertion order),
  and \<open>evaluate\<close> returns the first applying rule of that list. So whenever some rule
  applies, the rule \<open>w\<close> whose action and name are returned applies, no applying rule has a
  lower priority number than \<open>w\<close>, and \<open>w\<close> is the earliest inserted among the applying
  rules of its priority, whatever the order of insertion.
\<close>

theorem evaluate_priority_order:
  "add_rules xs = sort_key priority xs
   \<and> evaluate (add_rules xs) c res
       = (case find (\<lambda>r. applies r c res) (sort_key priority xs) of
            None \<Rightarrow> [(''action'', PStr ''deny''), (''rule'', PStr ''default-deny'')]
          | Some w \<Rightarrow> [(''action'', PStr (action w)), (''rule'', PStr (name w))])
   \<and> (\<forall>r\<in>set xs. applies r c res \<longrightarrow>
        (\<exists>w\<in>set xs. applies w c res
           \<and> evaluate (add_rules xs) c res
               = [(''action'', PStr (action w)), (''rule'', PStr (name w))]
           \<and> (\<forall>r'\<in>set xs. applies r' c res \<longrightarrow> priority w \<le> priority r')
           \<and> find (\<lambda>r'. priority r' = priority w \<and> applies r' c res) xs = Some w))"
proof (intro conjI ballI impI)
  show "add_rules xs = sort_key priority xs"
    by (rule add_rules_sort)
  show "evaluate (add_rules xs) c res
       = (case find (\<lambda>r. applies r c res) (sort_key priority xs) of
            None \<Rightarrow> [(''action'', PStr ''deny''), (''rule'', PStr ''default-deny'')]
          | Some w \<Rightarrow> [(''action'', PStr (action w)), (''rule'', PStr (name w))])"
    by (simp add: add_rules_sort evaluate_find default_deny_def rule_result_def
          split: option.splits)
next
  fix r assume r: "r \<in> set xs" "applies r c res"
  let ?ys = "sort_key priority xs"
  from r have "r \<in> set ?ys" by simp
  with r(2) obtain w where w: "find (\<lambda>r. applies r c res) ?ys = Some w"
    using find_exists [of r ?ys "\<lambda>r. applies r c res"] by blast
  then have wa: "applies w c res" and wy: "w \<in> set ?ys"
    using find_Some_holds [of "\<lambda>r. applies r c res" ?ys w] by blast+
  have e: "evaluate (add_rules xs) c res
             = [(''action'', PStr (action w)), (''rule'', PStr (name w))]"
    by (simp add: add_rules_sort evaluate_find w rule_result_def)
  have l: "\<forall>r'\<in>set xs. applies r' c res \<longrightarrow> priority w \<le> priority r'"
  proof (intro ballI impI)
    fix r' assume "r' \<in> set xs" "applies r' c res"
    then show "priority w \<le> priority r'"
      using find_sorted_least [of priority ?ys "\<lambda>r. applies r c res" w r'] w by simp
  qed
  have "find (\<lambda>r'. priority r' = priority w \<and> applies r' c res) ?ys = Some w"
    using w by (rule find_conj_key)
  then have "find (\<lambda>r'. applies r' c res) (filter (\<lambda>r'. priority r' = priority w) ?ys)
               = Some w"
    by (simp add: find_filter)
  then have "find (\<lambda>r'. applies r' c res) (filter (\<lambda>r'. priority r' = priority w) xs)
               = Some w"
    by (simp add: sort_key_stable)
  then have t: "find (\<lambda>r'. priority r' = priority w \<and> applies r' c res) xs = Some w"
    by (simp add: find_filter)
  from wy have "w \<in> set xs" by simp
  with wa e l t
  show "\<exists>w\<in>set xs. applies w c res
           \<and> evaluate (add_rules xs) c res
               = [(''action'', PStr (action w)), (''rule'', PStr (name w))]
           \<and> (\<forall>r'\<in>set xs. applies r' c res \<longrightarrow> priority w \<le> priority r')
           \<and> find (\<lambda>r'. priority r' = priority w \<and> applies r' c res) xs = Some w"
    by blast
qed

text \<open>
  Two rules that both apply, the one with priority 50 added before the one with priority
  5: the rule with priority 5 wins.
\<close>

theorem evaluate_priority_order_witness:
  "evaluate (add_rules [rule_deny_high, rule_allow_low]) () ()
     = [(''action'', PStr ''allow''), (''rule'', PStr ''first'')]"
proof -
  let ?xs = "[rule_deny_high, rule_allow_low]"
  have a: "rule_allow_low \<in> set ?xs" "applies rule_allow_low () ()"
    by (simp_all add: applies_def rule_allow_low_def)
  with evaluate_priority_order [of ?xs "()" "()"] obtain w where
    w: "w \<in> set ?xs"
    and e: "evaluate (add_rules ?xs) () ()
              = [(''action'', PStr (action w)), (''rule'', PStr (name w))]"
    and l: "\<forall>r'\<in>set ?xs. applies r' () () \<longrightarrow> priority w \<le> priority r'"
    by blast
  from l a have "priority w \<le> priority rule_allow_low" by blast
  with w have "w = rule_allow_low"
    by (auto simp add: rule_deny_high_def rule_allow_low_def)
  with e show ?thesis by (simp add: rule_allow_low_def)
qed


section \<open>Trust Assessor: a blocked country is never allowed\<close>

lemma clamp_le_one: "max 0 (min 1 (x::rat)) \<le> 1"
  by simp

lemma verify_device_score_le: "score (verify_device age_days sha256_hex d) \<le> 1"
  unfolding verify_device_def Let_def split_beta
  by (simp only: trust_verdict.simps clamp_le_one)

lemma verify_user_score_le: "score (verify_user age_days u) \<le> 1"
  unfolding verify_user_def Let_def split_beta
  by (simp only: trust_verdict.simps clamp_le_one)

lemma blocked_bound:
  fixes d u :: rat
  assumes "d \<le> 1" and "u \<le> 1"
  shows "max 0 (min 1 ((6 / 10) * d + (4 / 10) * u - 4 / 10)) \<le> 6 / 10"
proof -
  define x where "x = (6 / 10) * d + (4 / 10) * u - 4 / 10"
  have "x \<le> 6 / 10"
    unfolding x_def using assms by linarith
  then have "max 0 (min 1 x) \<le> 6 / 10"
    by (auto simp add: max_def min_def)
  then show ?thesis by (simp only: x_def)
qed

lemma verify_context_blocked_score:
  assumes "ctx_geo c = Some g" and "country g = Some cc"
    and "blocked_countries c = Some bl" and "cc \<in> set bl"
  shows "combined_score (verify_context age_days sha256_hex c) \<le> 6 / 10"
proof -
  let ?d = "score (verify_device age_days sha256_hex
                   (case ctx_device_assertion c of None \<Rightarrow> no_device_assertion | Some d \<Rightarrow> d))"
  let ?u = "score (verify_user age_days
                   (case ctx_user_assertion c of None \<Rightarrow> no_user_assertion | Some u \<Rightarrow> u))"
  have d: "?d \<le> 1" by (rule verify_device_score_le)
  have u: "?u \<le> 1" by (rule verify_user_score_le)
  have "combined_score (verify_context age_days sha256_hex c)
          = max 0 (min 1 ((6 / 10) * ?d + (4 / 10) * ?u - 4 / 10))"
    using assms by (simp add: verify_context_def Let_def)
  also have "\<dots> \<le> 6 / 10" using d u by (rule blocked_bound)
  finally show ?thesis .
qed

lemma allow_iff:
  "allow (verify_context age_days sha256_hex c)
     \<longleftrightarrow> combined_score (verify_context age_days sha256_hex c) \<ge> 65 / 100"
  unfolding verify_context_def Let_def split_beta
  by (simp only: context_verdict.simps)

text \<open>
  Claim C6. For every context whose geo country is a member of the caller-supplied list
  of blocked countries, \<open>verify_context\<close> returns \<open>allow = False\<close>, for all device and
  user assertions (and whatever the clock and the token hash are): the combined score is
  at most 0.6, below the threshold 0.65.
\<close>

theorem verify_context_blocked_country:
  assumes "ctx_geo c = Some g" and "country g = Some cc"
    and "blocked_countries c = Some bl" and "cc \<in> set bl"
  shows "\<not> allow (verify_context age_days sha256_hex c)
         \<and> combined_score (verify_context age_days sha256_hex c) \<le> 6 / 10"
proof -
  have "combined_score (verify_context age_days sha256_hex c) \<le> 6 / 10"
    using assms by (rule verify_context_blocked_score)
  then show ?thesis by (simp add: allow_iff)
qed

lemma best_device_score: "score (verify_device age_zero hash_zero best_device) = 1"
  by (simp add: verify_device_def age_zero_def hash_zero_def best_device_def)

lemma best_user_score: "score (verify_user age_zero best_user) = 9 / 10"
  by (simp add: verify_user_def age_zero_def best_user_def)

text \<open>
  A context with the best device and user assertions: it is allowed when no country is
  blocked, and not allowed when its country is.
\<close>

theorem verify_context_blocked_country_witness:
  "score (verify_device age_zero hash_zero best_device) = 1
   \<and> allow (verify_context age_zero hash_zero (ctx_blocked_best\<lparr>blocked_countries := None\<rparr>))
   \<and> \<not> allow (verify_context age_zero hash_zero ctx_blocked_best)"
proof -
  have g: "ctx_geo ctx_blocked_best = Some \<lparr>country = Some ''XX'', is_internal = None\<rparr>"
    "country \<lparr>country = Some ''XX'', is_internal = None\<rparr> = Some ''XX''"
    "blocked_countries ctx_blocked_best = Some [''XX'']" "''XX'' \<in> set [''XX'']"
    by (simp_all add: ctx_blocked_best_def)
  have a: "allow (verify_context age_zero hash_zero
                    (ctx_blocked_best\<lparr>blocked_countries := None\<rparr>))"
    by (simp add: verify_context_def ctx_blocked_best_def best_device_score best_user_score
          Let_def)
  from verify_context_blocked_country [OF g, of age_zero hash_zero] a best_device_score
  show ?thesis by simp
qed


section \<open>Session Monitor: one update\<close>

lemma has_alert_append_alert:
  "has_alert tag (append_alert a s) \<longleftrightarrow> has_alert tag s \<or> get a ''reason'' = PStr tag"
  by (auto simp add: has_alert_def append_alert_def alerts_of_def list_ex_iff
        split: option.splits)

lemma has_alert_status [simp]: "has_alert tag (s\<lparr>status := x\<rparr>) = has_alert tag s"
  by (simp add: has_alert_def alerts_of_def)

lemma has_alert_last_seen [simp]: "has_alert tag (s\<lparr>last_seen := x\<rparr>) = has_alert tag s"
  by (simp add: has_alert_def alerts_of_def)

lemma has_alert_events_count [simp]:
  "has_alert tag (s\<lparr>events_count := x\<rparr>) = has_alert tag s"
  by (simp add: has_alert_def alerts_of_def)

lemma has_alert_cumulative_bytes [simp]:
  "has_alert tag (s\<lparr>cumulative_bytes := x\<rparr>) = has_alert tag s"
  by (simp add: has_alert_def alerts_of_def)

lemma has_alert_no_alerts: "alerts s = None \<Longrightarrow> \<not> has_alert tag s"
  by (simp add: has_alert_def alerts_of_def)

lemma cumulative_append_alert [simp]:
  "cumulative_bytes (append_alert a s) = cumulative_bytes s"
  by (simp add: append_alert_def)

lemma status_append_alert [simp]: "status (append_alert a s) = status s"
  by (simp add: append_alert_def)

lemma create_session_fst:
  "fst (create_session now sid c m)
     = \<lparr>session_id = sid, created_at = now, last_seen = now, session_context = c,
        status = ''active'', cumulative_bytes = 0, events_count = 0,
        alerts = None, ended_at = None\<rparr>"
  by (simp add: create_session_def Let_def)

lemma create_session_snd:
  "snd (create_session now sid c m)
     = m\<lparr>sessions := (sessions m)(sid \<mapsto> fst (create_session now sid c m))\<rparr>"
  by (simp add: create_session_def Let_def)

lemma has_alert_created [simp]: "\<not> has_alert tag (fst (create_session now sid c m))"
  by (rule has_alert_no_alerts) (simp add: create_session_fst)

lemma cumulative_created [simp]: "cumulative_bytes (fst (create_session now sid c m)) = 0"
  by (simp add: create_session_fst)

text \<open>After an update the session exists: it is the session the call returns.\<close>

lemma update_session_fst:
  "sessions (snd (update_session now sid ev m)) sid = Some (fst (update_session now sid ev m))"
  by (simp add: update_session_def Let_def split_beta)

lemma update_session_cum:
  "cum (snd (update_session now sid ev m)) sid = cum m sid + event_bytes ev"
  by (simp add: update_session_def Let_def split_beta cum_def create_session_def
        event_bytes_def split: option.splits)

lemma update_session_hdt:
  "hdt (snd (update_session now sid ev m)) sid
     \<longleftrightarrow> hdt m sid \<or> cum (snd (update_session now sid ev m)) sid > 100 * 1024 * 1024"
proof (cases "sessions m sid")
  case None
  then show ?thesis
    by (simp add: update_session_def Let_def split_beta cum_def hdt_def
          has_alert_append_alert get_def
          if_distrib [of "has_alert ''high_data_transfer''"] if_distrib [of cumulative_bytes])
next
  case (Some s)
  then show ?thesis
    by (simp add: update_session_def Let_def split_beta cum_def hdt_def
          has_alert_append_alert get_def
          if_distrib [of "has_alert ''high_data_transfer''"] if_distrib [of cumulative_bytes])
qed

lemma update_session_status:
  "cumulative_bytes (fst (update_session now sid ev m)) > 100 * 1024 * 1024
     \<longrightarrow> status (fst (update_session now sid ev m)) = ''suspicious''"
  by (simp add: update_session_def Let_def split_beta
        if_distrib [of status] if_distrib [of cumulative_bytes])

lemma update_session_suspicious:
  assumes "cum (snd (update_session now sid ev m)) sid > 100 * 1024 * 1024"
  shows "\<exists>s. sessions (snd (update_session now sid ev m)) sid = Some s
            \<and> status s = ''suspicious''"
proof -
  from assms have "cumulative_bytes (fst (update_session now sid ev m)) > 100 * 1024 * 1024"
    by (simp add: cum_def update_session_fst)
  with update_session_status [of now sid ev m]
  have "status (fst (update_session now sid ev m)) = ''suspicious''" by blast
  with update_session_fst [of now sid ev m] show ?thesis by blast
qed

lemma update_session_other:
  "i \<noteq> sid \<Longrightarrow> sessions (snd (update_session now i ev m)) sid = sessions m sid"
  by (simp add: update_session_def Let_def split_beta create_session_def split: option.splits)


section \<open>Session Monitor: the data-transfer threshold\<close>

lemma feed_append:
  "feed sid (es @ [(now, ev)]) m = snd (update_session now sid ev (feed sid es m))"
  by (induction es arbitrary: m) auto

lemma feed_cum:
  "\<forall>te\<in>set es. bytes (snd te) = Some b
     \<Longrightarrow> cum (feed sid es m) sid = cum m sid + b * int (length es)"
proof (induction es arbitrary: m)
  case Nil
  then show ?case by simp
next
  case (Cons te es)
  obtain now ev where te: "te = (now, ev)" by (cases te)
  with Cons.prems have b: "event_bytes ev = b" by (simp add: event_bytes_def)
  from Cons.prems have "\<forall>te\<in>set es. bytes (snd te) = Some b" by simp
  from Cons.IH [OF this] te b show ?case
    by (simp add: update_session_cum algebra_simps)
qed

lemma feed_no_hdt:
  assumes "\<forall>te\<in>set es. bytes (snd te) = Some b" and "0 \<le> b"
    and "\<not> hdt m sid" and "cum m sid + b * int (length es) \<le> 100 * 1024 * 1024"
  shows "\<not> hdt (feed sid es m) sid"
  using assms
proof (induction es arbitrary: m)
  case Nil
  then show ?case by simp
next
  case (Cons te es)
  obtain now ev where te: "te = (now, ev)" by (cases te)
  let ?m = "snd (update_session now sid ev m)"
  from te Cons.prems(1) have b: "event_bytes ev = b" by (simp add: event_bytes_def)
  then have c: "cum ?m sid = cum m sid + b" by (simp add: update_session_cum)
  have "0 \<le> b * int (length es)" using Cons.prems(2) by simp
  with c Cons.prems(4) have "cum ?m sid \<le> 100 * 1024 * 1024" by (simp add: algebra_simps)
  with Cons.prems(3) have h: "\<not> hdt ?m sid" by (simp add: update_session_hdt)
  from c Cons.prems(4) have l: "cum ?m sid + b * int (length es) \<le> 100 * 1024 * 1024"
    by (simp add: algebra_simps)
  from Cons.prems(1) have "\<forall>te\<in>set es. bytes (snd te) = Some b" by simp
  from Cons.IH [OF this Cons.prems(2) h l] te show ?case by simp
qed

lemma feed_exists: "es \<noteq> [] \<Longrightarrow> \<exists>s. sessions (feed sid es m) sid = Some s"
proof (induction es rule: rev_induct)
  case Nil
  then show ?case by simp
next
  case (snoc te es)
  obtain now ev where "te = (now, ev)" by (cases te)
  then show ?case by (simp add: feed_append update_session_fst)
qed

lemma fresh_cum: "fresh sid m \<Longrightarrow> cum m sid = 0 \<and> \<not> hdt m sid"
  by (auto simp add: fresh_def cum_def hdt_def has_alert_def alerts_of_def
        split: option.splits)

lemma create_session_fresh: "fresh sid (snd (create_session now sid c m))"
  by (simp add: fresh_def create_session_snd create_session_fst)

text \<open>
  Claim C7. Starting from a fresh session, after exactly 101 \<open>update_session\<close> events each
  carrying 1,048,576 bytes, the cumulative byte counter is 101 MiB, which exceeds 100 MiB,
  the status is \<open>"suspicious"\<close> and the alert list contains an alert tagged
  \<open>"high_data_transfer"\<close>; after only the first 100 of these events the counter is exactly
  100 MiB and there is no such alert.
\<close>

theorem high_data_transfer_after_101_events:
  assumes "fresh sid m" and "length es = 101"
    and "\<forall>te\<in>set es. bytes (snd te) = Some 1048576"
  shows "(\<exists>s. sessions (feed sid es m) sid = Some s
             \<and> cumulative_bytes s = 101 * 1048576
             \<and> cumulative_bytes s > 100 * 1024 * 1024
             \<and> status s = ''suspicious''
             \<and> has_alert ''high_data_transfer'' s)
       \<and> (\<exists>s'. sessions (feed sid (take 100 es) m) sid = Some s'
             \<and> cumulative_bytes s' = 100 * 1024 * 1024
             \<and> \<not> has_alert ''high_data_transfer'' s')"
proof -
  let ?pre = "take 100 es"
  let ?m = "feed sid ?pre m"
  have es: "es = ?pre @ [es ! 100]"
  proof -
    from assms(2) have "100 < length es" by simp
    then have "take (Suc 100) es = take 100 es @ [es ! 100]"
      by (rule take_Suc_conv_app_nth)
    moreover from assms(2) have "length es \<le> Suc 100" by simp
    then have "take (Suc 100) es = es" by (rule take_all)
    ultimately show ?thesis by simp
  qed
  obtain now ev where last: "es ! 100 = (now, ev)" by (cases "es ! 100")
  from assms(3) have pre: "\<forall>te\<in>set ?pre. bytes (snd te) = Some 1048576"
    by (auto dest: in_set_takeD)
  from assms(2) have len: "length ?pre = 100" by simp
  from fresh_cum [OF assms(1)] have z: "cum m sid = 0" and nh: "\<not> hdt m sid" by simp_all
  have c100: "cum ?m sid = 100 * 1024 * 1024"
    using feed_cum [OF pre, of sid m] z len by simp
  have h100: "\<not> hdt ?m sid"
    using feed_no_hdt [OF pre _ nh] z len by simp
  from len have "?pre \<noteq> []" by auto
  from feed_exists [OF this] obtain s' where s': "sessions ?m sid = Some s'" by blast
  with c100 h100 have before:
    "\<exists>s'. sessions ?m sid = Some s' \<and> cumulative_bytes s' = 100 * 1024 * 1024
          \<and> \<not> has_alert ''high_data_transfer'' s'"
    by (simp add: cum_def hdt_def)
  have "es ! 100 \<in> set es" using assms(2) by simp
  with assms(3) last have b: "event_bytes ev = 1048576" by (auto simp add: event_bytes_def)
  let ?u = "snd (update_session now sid ev ?m)"
  have fu: "feed sid es m = ?u"
    using es last feed_append [of sid ?pre now ev m] by simp
  have c101: "cum ?u sid = 101 * 1048576"
    using c100 b by (simp add: update_session_cum)
  then have gt: "cum ?u sid > 100 * 1024 * 1024" by simp
  from update_session_suspicious [OF gt] obtain s where
    s: "sessions ?u sid = Some s" and st: "status s = ''suspicious''" by blast
  from gt have "hdt ?u sid" by (simp add: update_session_hdt)
  with s have ha: "has_alert ''high_data_transfer'' s" by (simp add: hdt_def)
  from c101 s have cs: "cumulative_bytes s = 101 * 1048576" by (simp add: cum_def)
  from s st ha cs fu have "\<exists>s. sessions (feed sid es m) sid = Some s
             \<and> cumulative_bytes s = 101 * 1048576
             \<and> cumulative_bytes s > 100 * 1024 * 1024
             \<and> status s = ''suspicious''
             \<and> has_alert ''high_data_transfer'' s" by simp
  with before show ?thesis by blast
qed

text \<open>A session just created in the empty monitor, fed 101 events of 1 MiB.\<close>

theorem high_data_transfer_after_101_events_witness:
  "\<exists>s. sessions (feed ''s1'' (replicate 101 (0, event_mib))
                    (snd (create_session 0 ''s1'' [] empty_monitor))) ''s1'' = Some s
       \<and> cumulative_bytes s > 100 * 1024 * 1024
       \<and> status s = ''suspicious''
       \<and> has_alert ''high_data_transfer'' s"
proof -
  have l: "length (replicate 101 (0::rat, event_mib)) = 101" by simp
  have b: "\<forall>te\<in>set (replicate 101 (0::rat, event_mib)). bytes (snd te) = Some 1048576"
    by (simp add: event_mib_def)
  from high_data_transfer_after_101_events
         [OF create_session_fresh l b, of "''s1''" 0 "[]" empty_monitor]
  show ?thesis by blast
qed


section \<open>Session Monitor: the byte counter over a sequence of operations\<close>

lemma counter_update:
  "counter (snd (update_session now sid ev m)) sid = Some (cum m sid + event_bytes ev)"
proof -
  have "cum (snd (update_session now sid ev m)) sid
          = cumulative_bytes (fst (update_session now sid ev m))"
    by (simp add: cum_def update_session_fst)
  then show ?thesis
    by (simp add: counter_def update_session_fst update_session_cum)
qed

lemma counter_create: "counter (snd (create_session now sid c m)) sid = Some 0"
  by (simp add: counter_def create_session_snd)

lemma cum_create: "cum (snd (create_session now sid c m)) sid = 0"
  by (simp add: cum_def create_session_snd)

lemma step_keeps_counter:
  assumes "sessions m sid = Some s" and "keeps_counter sid x"
  shows "\<exists>s'. sessions (step x m) sid = Some s' \<and> cumulative_bytes s \<le> cumulative_bytes s'"
proof (cases x)
  case (Create now i c)
  with assms show ?thesis by (simp add: create_session_snd)
next
  case (Update now i ev)
  show ?thesis
  proof (cases "i = sid")
    case True
    with Update assms(2) have "0 \<le> event_bytes ev" by simp
    moreover have "cumulative_bytes (fst (update_session now sid ev m))
                     = cumulative_bytes s + event_bytes ev"
      using update_session_cum [of now sid ev m] assms(1)
      by (simp add: cum_def update_session_fst)
    ultimately show ?thesis using Update True by (simp add: update_session_fst)
  next
    case False
    with Update assms(1) show ?thesis by (simp add: update_session_other)
  qed
next
  case (Check i)
  with assms(1) show ?thesis
    by (cases "sessions m i") (auto simp add: check_session_def Let_def)
next
  case (End now i)
  with assms(1) show ?thesis
    by (cases "sessions m i") (auto simp add: end_session_def)
qed

text \<open>
  Claim C9, as the specification states it, fails twice. A session with counter 10 that
  receives an event with byte count \<open>-5\<close> has counter 5; and \<open>create_session\<close> on its id,
  without any \<open>end_session\<close>, puts the counter back to 0.
\<close>

theorem counter_decreases_counterexample:
  "counter (run [Create 0 ''s1'' [], Update 1 ''s1'' (event_bytes_of (Some 10))]
              empty_monitor) ''s1'' = Some 10
   \<and> counter (run [Create 0 ''s1'' [], Update 1 ''s1'' (event_bytes_of (Some 10)),
                   Update 2 ''s1'' (event_bytes_of (Some (- 5)))]
              empty_monitor) ''s1'' = Some 5
   \<and> counter (run [Create 0 ''s1'' [], Update 1 ''s1'' (event_bytes_of (Some 10)),
                   Create 2 ''s1'' []]
              empty_monitor) ''s1'' = Some 0"
  by (simp add: counter_update counter_create update_session_cum cum_create event_bytes_def
        event_bytes_of_def)

text \<open>
  Claim C9, amended. For every existing session and every sequence of Session Monitor
  operations (on any session ids) that contains no \<open>create_session\<close> on this session's id
  and no \<open>update_session\<close> on it with a negative byte count, the session still exists
  afterwards and its cumulative byte counter has not decreased. Events without a byte
  count, \<open>check_session\<close> and \<open>end_session\<close> are allowed: \<open>end_session\<close> does not reset the
  counter.
\<close>

theorem counter_never_decreases:
  assumes "sessions m sid = Some s" and "\<forall>x\<in>set ops. keeps_counter sid x"
  shows "\<exists>s'. sessions (run ops m) sid = Some s' \<and> cumulative_bytes s \<le> cumulative_bytes s'"
  using assms
proof (induction ops arbitrary: m s)
  case Nil
  then show ?case by simp
next
  case (Cons x ops)
  from Cons.prems have "keeps_counter sid x" by simp
  from step_keeps_counter [OF Cons.prems(1) this] obtain s1 where
    s1: "sessions (step x m) sid = Some s1" and le: "cumulative_bytes s \<le> cumulative_bytes s1"
    by blast
  from Cons.prems have "\<forall>x\<in>set ops. keeps_counter sid x" by simp
  from Cons.IH [OF s1 this] obtain s' where
    "sessions (run ops (step x m)) sid = Some s'" "cumulative_bytes s1 \<le> cumulative_bytes s'"
    by blast
  with le show ?case by auto
qed

text \<open>
  A session with counter 10, followed by an event without a byte count, a check, an end,
  a negative event of another session and one more event.
\<close>

theorem counter_never_decreases_witness:
  "\<exists>s'. sessions (run [Update 2 ''s1'' (event_bytes_of None), Check ''s1'', End 3 ''s1'',
                         Update 4 ''s2'' (event_bytes_of (Some (- 5))),
                         Update 5 ''s1'' (event_bytes_of (Some 7))]
                     (snd (update_session 1 ''s1'' (event_bytes_of (Some 10))
                             (snd (create_session 0 ''s1'' [] empty_monitor))))) ''s1''
          = Some s'
        \<and> 10 \<le> cumulative_bytes s'"
proof -
  let ?m0 = "snd (create_session 0 ''s1'' [] empty_monitor)"
  let ?ev = "event_bytes_of (Some 10)"
  let ?m1 = "snd (update_session 1 ''s1'' ?ev ?m0)"
  let ?s1 = "fst (update_session 1 ''s1'' ?ev ?m0)"
  have a: "sessions ?m1 ''s1'' = Some ?s1"
    by (rule update_session_fst)
  have "cum ?m1 ''s1'' = 10"
    by (simp add: update_session_cum cum_create event_bytes_def event_bytes_of_def)
  with a have c: "cumulative_bytes ?s1 = 10"
    by (simp add: cum_def)
  have k: "\<forall>x\<in>set [Update 2 ''s1'' (event_bytes_of None), Check ''s1'', End 3 ''s1'',
                      Update 4 ''s2'' (event_bytes_of (Some (- 5))),
                      Update 5 ''s1'' (event_bytes_of (Some 7))]. keeps_counter ''s1'' x"
    by (simp add: event_bytes_def event_bytes_of_def)
  from counter_never_decreases [OF a k] c show ?thesis by simp
qed


section \<open>Session Monitor: escalation on read\<close>

text \<open>
  Claim C10. For every existing session whose alert list has length at least 2,
  \<open>check_session\<close> stores and reports the status \<open>"quarantined"\<close>, whatever the status was.
  In particular, after \<open>end_session\<close> has set the status to \<open>"ended"\<close>, a following
  \<open>check_session\<close> reports and stores \<open>"quarantined"\<close>, not \<open>"ended"\<close>.
\<close>

theorem check_session_quarantines:
  assumes "sessions m sid = Some s" and "length (alerts_of s) \<ge> 2"
  shows "check_session sid m
           = (Found (s\<lparr>status := ''quarantined''\<rparr>),
              m\<lparr>sessions := (sessions m)(sid \<mapsto> s\<lparr>status := ''quarantined''\<rparr>)\<rparr>)
         \<and> sessions (end_session now sid m) sid
             = Some (s\<lparr>status := ''ended'', ended_at := Some now\<rparr>)
         \<and> fst (check_session sid (end_session now sid m))
             = Found (s\<lparr>status := ''quarantined'', ended_at := Some now\<rparr>)
         \<and> sessions (snd (check_session sid (end_session now sid m))) sid
             = Some (s\<lparr>status := ''quarantined'', ended_at := Some now\<rparr>)"
  using assms by (simp add: check_session_def end_session_def Let_def alerts_of_def)

text \<open>A session with two alerts that is ended and then checked.\<close>

theorem check_session_quarantines_witness:
  "sessions (end_session 3 ''s1'' monitor_two_alerts) ''s1''
       = Some (session_two_alerts\<lparr>status := ''ended'', ended_at := Some 3\<rparr>)
   \<and> fst (check_session ''s1'' (end_session 3 ''s1'' monitor_two_alerts))
       = Found (session_two_alerts\<lparr>status := ''quarantined'', ended_at := Some 3\<rparr>)
   \<and> sessions (snd (check_session ''s1'' (end_session 3 ''s1'' monitor_two_alerts))) ''s1''
       = Some (session_two_alerts\<lparr>status := ''quarantined'', ended_at := Some 3\<rparr>)"
proof -
  have a: "sessions monitor_two_alerts ''s1'' = Some session_two_alerts"
    by (simp add: monitor_two_alerts_def)
  have b: "length (alerts_of session_two_alerts) \<ge> 2"
    by (simp add: alerts_of_def session_two_alerts_def)
  from check_session_quarantines [OF a b, of 3] show ?thesis by simp
qed

end
